theory Spec2Isabelle
  imports Complex_Main "HOL-Library.Word" "HOL-Library.Log_Nat" "HOL-Library.AList"
begin

section \<open>JavaScript numbers\<close>

text \<open>
  Every value the emulator computes with is a JavaScript \<^emph>\<open>number\<close>: an IEEE-754 double.
  A double is either not-a-number, an infinity, negative zero, or a finite rational
  (positive zero is \<open>Fin 0\<close>). Arithmetic is exact rational arithmetic followed by
  rounding to nearest, ties to even, at the precision of the format.
\<close>

datatype number = NaN | PInf | NInf | NZero | Fin rat

definition pow2 :: "int \<Rightarrow> rat" where
  "pow2 k = (if 0 \<le> k then 2 ^ nat k else 1 / 2 ^ nat (- k))"

text \<open>\<open>ilog2 a\<close> is the binary exponent of a positive rational: \<open>2^e \<le> a < 2^(e+1)\<close>.\<close>

definition ilog2 :: "rat \<Rightarrow> int" where
  "ilog2 a = (if 1 \<le> a then bitlen \<lfloor>a\<rfloor> - 1 else - bitlen (\<lceil>1 / a\<rceil> - 1))"

definition roundHalfEven :: "rat \<Rightarrow> int" where
  "roundHalfEven m =
     (let n = \<lfloor>m\<rfloor>; f = m - of_int n
      in if f < 1 / 2 then n else if 1 / 2 < f then n + 1 else if even n then n else n + 1)"

text \<open>
  \<open>decompose p emin a\<close> rounds the magnitude \<open>a\<close> to \<open>p\<close> significant bits: the result
  \<open>(n, e)\<close> stands for \<open>n * 2^(e - p + 1)\<close>, where \<open>e\<close> is never below \<open>emin\<close>
  (gradual underflow).
\<close>

definition decompose :: "nat \<Rightarrow> int \<Rightarrow> rat \<Rightarrow> int \<times> int" where
  "decompose p emin a =
     (let e = max (ilog2 a) emin in (roundHalfEven (a / pow2 (e - int p + 1)), e))"

definition signedZero :: "bool \<Rightarrow> number" where
  "signedZero neg = (if neg then NZero else Fin 0)"

definition signedInf :: "bool \<Rightarrow> number" where
  "signedInf neg = (if neg then NInf else PInf)"

definition roundBinary :: "nat \<Rightarrow> int \<Rightarrow> int \<Rightarrow> bool \<Rightarrow> rat \<Rightarrow> number" where
  "roundBinary p emin emax neg a =
     (if a = 0 then signedZero neg
      else case decompose p emin a of (n, e) \<Rightarrow>
        let v = of_int n * pow2 (e - int p + 1)
        in if n = 0 then signedZero neg
           else if pow2 (emax + 1) \<le> v then signedInf neg
           else Fin (if neg then - v else v))"

text \<open>The double nearest to a rational (binary64: 53 bits, exponents -1022 .. 1023).\<close>

definition toDouble :: "rat \<Rightarrow> number" where
  "toDouble q = roundBinary 53 (- 1022) 1023 (q < 0) \<bar>q\<bar>"

text \<open>\<open>Math.fround\<close>: the nearest single (binary32: 24 bits, exponents -126 .. 127).\<close>

definition fround :: "number \<Rightarrow> number" where
  "fround x = (case x of Fin q \<Rightarrow> roundBinary 24 (- 126) 127 (q < 0) \<bar>q\<bar> | _ \<Rightarrow> x)"

fun rank :: "number \<Rightarrow> int" where
  "rank NInf = - 1"
| "rank PInf = 1"
| "rank _ = 0"

fun mag :: "number \<Rightarrow> rat" where
  "mag (Fin q) = q"
| "mag _ = 0"

fun isNeg :: "number \<Rightarrow> bool" where
  "isNeg NInf = True"
| "isNeg NZero = True"
| "isNeg (Fin q) = (q < 0)"
| "isNeg _ = False"

fun isZero :: "number \<Rightarrow> bool" where
  "isZero NZero = True"
| "isZero (Fin q) = (q = 0)"
| "isZero _ = False"

fun isInf :: "number \<Rightarrow> bool" where
  "isInf PInf = True"
| "isInf NInf = True"
| "isInf _ = False"

text \<open>The comparisons \<open><\<close>, \<open>>\<close>, \<open>>=\<close>, \<open><=\<close> and \<open>===\<close>: all false on \<open>NaN\<close>; the two zeros are equal.\<close>

definition num_lt :: "number \<Rightarrow> number \<Rightarrow> bool" where
  "num_lt a b = (a \<noteq> NaN \<and> b \<noteq> NaN \<and> (rank a < rank b \<or> rank a = rank b \<and> mag a < mag b))"

definition num_gt :: "number \<Rightarrow> number \<Rightarrow> bool" where
  "num_gt a b = num_lt b a"

definition num_ge :: "number \<Rightarrow> number \<Rightarrow> bool" where
  "num_ge a b = (a \<noteq> NaN \<and> b \<noteq> NaN \<and> \<not> num_lt a b)"

definition num_le :: "number \<Rightarrow> number \<Rightarrow> bool" where
  "num_le a b = num_ge b a"

definition num_eq :: "number \<Rightarrow> number \<Rightarrow> bool" where
  "num_eq a b = (a \<noteq> NaN \<and> b \<noteq> NaN \<and> rank a = rank b \<and> mag a = mag b)"

definition num_add :: "number \<Rightarrow> number \<Rightarrow> number" where
  "num_add a b =
     (if a = NaN \<or> b = NaN then NaN
      else if isInf a \<or> isInf b then
        (if isInf a \<and> isInf b \<and> a \<noteq> b then NaN else if isInf a then a else b)
      else if isZero a \<and> isZero b then signedZero (isNeg a \<and> isNeg b)
      else let s = mag a + mag b in if s = 0 then Fin 0 else toDouble s)"

fun num_neg :: "number \<Rightarrow> number" where
  "num_neg NaN = NaN"
| "num_neg PInf = NInf"
| "num_neg NInf = PInf"
| "num_neg NZero = Fin 0"
| "num_neg (Fin q) = (if q = 0 then NZero else Fin (- q))"

definition num_sub :: "number \<Rightarrow> number \<Rightarrow> number" where
  "num_sub a b = num_add a (num_neg b)"

definition num_mul :: "number \<Rightarrow> number \<Rightarrow> number" where
  "num_mul a b =
     (if a = NaN \<or> b = NaN then NaN
      else let neg = (isNeg a \<noteq> isNeg b)
        in if isInf a \<or> isInf b then (if isZero a \<or> isZero b then NaN else signedInf neg)
           else roundBinary 53 (- 1022) 1023 neg \<bar>mag a * mag b\<bar>)"

definition num_div :: "number \<Rightarrow> number \<Rightarrow> number" where
  "num_div a b =
     (if a = NaN \<or> b = NaN then NaN
      else let neg = (isNeg a \<noteq> isNeg b)
        in if isInf a then (if isInf b then NaN else signedInf neg)
           else if isInf b then signedZero neg
           else if isZero b then (if isZero a then NaN else signedInf neg)
           else roundBinary 53 (- 1022) 1023 neg \<bar>mag a / mag b\<bar>)"

text \<open>\<open>Math.trunc\<close>; a negative fraction above -1 truncates to negative zero.\<close>

fun num_trunc :: "number \<Rightarrow> number" where
  "num_trunc (Fin q) =
     (if 0 \<le> q then Fin (of_int \<lfloor>q\<rfloor>)
      else if \<lceil>q\<rceil> = 0 then NZero else Fin (of_int \<lceil>q\<rceil>))"
| "num_trunc x = x"

text \<open>The integer a number truncates to, with \<open>NaN\<close>, the zeros and the infinities at 0
  (the first step of \<open>ToInt8\<close>, \<open>ToUint8\<close> and \<open>ToUint32\<close>, which then reduce modulo the width).\<close>

fun toInteger :: "number \<Rightarrow> int" where
  "toInteger (Fin q) = (if 0 \<le> q then \<lfloor>q\<rfloor> else \<lceil>q\<rceil>)"
| "toInteger _ = 0"

definition ofNat :: "nat \<Rightarrow> number" where
  "ofNat n = Fin (of_nat n)"


section \<open>TypeCasting and DataTypeConstants\<close>

text \<open>Modelled from the spec: the module \<open>DataTypeConstants.ts\<close> is not part of the sources;
  its four constants are the bounds of the signed byte, the unsigned byte and the unsigned
  32-bit integer (\<open>2^32 - 1\<close>, the value the tests expect of the program counter after \<open>exit\<close>).\<close>

definition INT8_MIN :: number where "INT8_MIN = Fin (- 128)"
definition INT8_MAX :: number where "INT8_MAX = Fin 127"
definition UINT8_MAX :: number where "UINT8_MAX = Fin 255"
definition UINT32_MAX :: number where "UINT32_MAX = Fin 4294967295"

definition integerSaturate :: "number \<Rightarrow> number \<Rightarrow> number \<Rightarrow> number" where
  "integerSaturate v mn mx =
     (if num_lt v mn then mn else if num_gt v mx then mx else num_trunc v)"

definition toUint8 :: "number \<Rightarrow> number" where
  "toUint8 v = integerSaturate v (Fin 0) UINT8_MAX"

definition toUint32 :: "number \<Rightarrow> number" where
  "toUint32 v = integerSaturate v (Fin 0) UINT32_MAX"

definition toFloat32 :: "number \<Rightarrow> number" where
  "toFloat32 v = fround v"


section \<open>Single-precision bytes\<close>

text \<open>
  The bit pattern of the single nearest to a number (what \<open>DataView.setFloat32\<close> writes),
  as a natural number below \<open>2^32\<close>: sign, eight exponent bits, 23 fraction bits.
  \<open>NaN\<close> is written as the quiet NaN \<open>0x7FC00000\<close>.
\<close>

definition float32Bits :: "number \<Rightarrow> nat" where
  "float32Bits x =
     (case x of
        NaN \<Rightarrow> 2143289344
      | PInf \<Rightarrow> 2139095040
      | NInf \<Rightarrow> 2147483648 + 2139095040
      | NZero \<Rightarrow> 2147483648
      | Fin q \<Rightarrow>
          if q = 0 then 0
          else let s = (if q < 0 then 2147483648 else 0)
            in case decompose 24 (- 126) \<bar>q\<bar> of (n, e) \<Rightarrow>
              if n = 0 then s
              else if n < 8388608 then s + nat n
              else let n' = (if n = 16777216 then 8388608 else n);
                       e' = (if n = 16777216 then e + 1 else e)
                in if 127 < e' then s + 2139095040
                   else s + nat ((e' + 127) * 8388608 + (n' - 8388608)))"

definition decodeFloat32 :: "nat \<Rightarrow> number" where
  "decodeFloat32 w =
     (let neg = (w div 2147483648 = 1);
          E = (w div 8388608) mod 256;
          M = w mod 8388608
      in if E = 255 then (if M = 0 then signedInf neg else NaN)
         else if E = 0 then
           (if M = 0 then signedZero neg
            else Fin ((if neg then - 1 else 1) * of_nat M * pow2 (- 149)))
         else Fin ((if neg then - 1 else 1) * of_nat (8388608 + M) * pow2 (int E - 150)))"

type_synonym byte = "8 word"

text \<open>Big-endian: the most significant byte first.\<close>

definition bytesOfBits :: "nat \<Rightarrow> byte list" where
  "bytesOfBits w =
     [of_nat (w div 16777216), of_nat (w div 65536 mod 256), of_nat (w div 256 mod 256),
      of_nat (w mod 256)]"

definition bitsOfBytes :: "byte \<Rightarrow> byte \<Rightarrow> byte \<Rightarrow> byte \<Rightarrow> nat" where
  "bitsOfBytes b0 b1 b2 b3 = unat b0 * 16777216 + unat b1 * 65536 + unat b2 * 256 + unat b3"


section \<open>DataView and typed arrays\<close>

datatype error = ProgramTooLarge | RangeError | TypeError

text \<open>\<open>ToIndex\<close>: \<open>NaN\<close> and the zeros are index 0, fractions truncate, a negative or
  too large index is a RangeError (\<open>None\<close>).\<close>

definition toIndex :: "number \<Rightarrow> nat option" where
  "toIndex x =
     (case x of
        PInf \<Rightarrow> None
      | NInf \<Rightarrow> None
      | Fin q \<Rightarrow>
          (let i = toInteger (Fin q)
           in if i < 0 \<or> 9007199254740991 < i then None else Some (nat i))
      | _ \<Rightarrow> Some 0)"

definition getUint8 :: "byte list \<Rightarrow> number \<Rightarrow> error + number" where
  "getUint8 view byteOffset =
     (case toIndex byteOffset of
        None \<Rightarrow> Inl RangeError
      | Some i \<Rightarrow>
          if length view < i + 1 then Inl RangeError else Inr (ofNat (unat (view ! i))))"

definition getInt8 :: "byte list \<Rightarrow> number \<Rightarrow> error + number" where
  "getInt8 view byteOffset =
     (case toIndex byteOffset of
        None \<Rightarrow> Inl RangeError
      | Some i \<Rightarrow>
          if length view < i + 1 then Inl RangeError else Inr (Fin (of_int (sint (view ! i)))))"

definition getFloat32 :: "byte list \<Rightarrow> number \<Rightarrow> error + number" where
  "getFloat32 view byteOffset =
     (case toIndex byteOffset of
        None \<Rightarrow> Inl RangeError
      | Some i \<Rightarrow>
          if length view < i + 4 then Inl RangeError
          else Inr (decodeFloat32
                 (bitsOfBytes (view ! i) (view ! (i + 1)) (view ! (i + 2)) (view ! (i + 3)))))"

definition setInt8 :: "byte list \<Rightarrow> number \<Rightarrow> number \<Rightarrow> error + byte list" where
  "setInt8 view byteOffset v =
     (case toIndex byteOffset of
        None \<Rightarrow> Inl RangeError
      | Some i \<Rightarrow>
          if length view < i + 1 then Inl RangeError
          else Inr (view[i := word_of_int (toInteger v)]))"

definition setFloat32 :: "byte list \<Rightarrow> number \<Rightarrow> number \<Rightarrow> error + byte list" where
  "setFloat32 view byteOffset v =
     (case toIndex byteOffset of
        None \<Rightarrow> Inl RangeError
      | Some i \<Rightarrow>
          if length view < i + 4 then Inl RangeError
          else (case bytesOfBits (float32Bits v) of
                  [b0, b1, b2, b3] \<Rightarrow>
                    Inr (view[i := b0, i + 1 := b1, i + 2 := b2, i + 3 := b3])
                | _ \<Rightarrow> Inr view))"

text \<open>
  Element access \<open>a[k]\<close> on a typed array with a number as the key: the key is an element
  only when it is an integer within the length (negative zero is the key \<open>"0"\<close>). A write
  under any other key is dropped; a read gives \<open>undefined\<close>, which every use in the
  emulator coerces to \<open>NaN\<close>.
\<close>

definition elementIndex :: "number \<Rightarrow> nat \<Rightarrow> nat option" where
  "elementIndex k len =
     (case k of
        NZero \<Rightarrow> (if 0 < len then Some 0 else None)
      | Fin q \<Rightarrow>
          (if of_int \<lfloor>q\<rfloor> = q \<and> 0 \<le> q \<and> q < of_nat len then Some (nat \<lfloor>q\<rfloor>) else None)
      | _ \<Rightarrow> None)"

definition float32ArrayGet :: "number list \<Rightarrow> number \<Rightarrow> number" where
  "float32ArrayGet a k = (case elementIndex k (length a) of None \<Rightarrow> NaN | Some i \<Rightarrow> a ! i)"

definition float32ArraySet :: "number list \<Rightarrow> number \<Rightarrow> number \<Rightarrow> number list" where
  "float32ArraySet a k v =
     (case elementIndex k (length a) of None \<Rightarrow> a | Some i \<Rightarrow> a[i := fround v])"

definition uint32ArrayGet :: "32 word list \<Rightarrow> number \<Rightarrow> number" where
  "uint32ArrayGet a k =
     (case elementIndex k (length a) of None \<Rightarrow> NaN | Some i \<Rightarrow> ofNat (unat (a ! i)))"

definition uint32ArraySet :: "32 word list \<Rightarrow> number \<Rightarrow> number \<Rightarrow> 32 word list" where
  "uint32ArraySet a k v =
     (case elementIndex k (length a) of
        None \<Rightarrow> a
      | Some i \<Rightarrow> a[i := word_of_int (toInteger v)])"


section \<open>Registers\<close>

record Registers =
  programCounter :: number
  argumentStackPointer :: number
  jumpStackPointer :: number
  regT :: number
  regR :: number
  regY :: number

datatype GeneralPurposeRegisterName = RegT | RegR | RegY

datatype RegisterName = GP GeneralPurposeRegisterName | PC | AS | JS

text \<open>The setters are the width gates: every write goes through one of them.\<close>

definition set_programCounter :: "number \<Rightarrow> Registers \<Rightarrow> Registers" where
  "set_programCounter v regs = regs\<lparr>programCounter := toUint32 v\<rparr>"

definition set_argumentStackPointer :: "number \<Rightarrow> Registers \<Rightarrow> Registers" where
  "set_argumentStackPointer v regs = regs\<lparr>argumentStackPointer := toUint8 v\<rparr>"

definition set_jumpStackPointer :: "number \<Rightarrow> Registers \<Rightarrow> Registers" where
  "set_jumpStackPointer v regs = regs\<lparr>jumpStackPointer := toUint8 v\<rparr>"

definition set_t :: "number \<Rightarrow> Registers \<Rightarrow> Registers" where
  "set_t v regs = regs\<lparr>regT := toFloat32 v\<rparr>"

definition set_r :: "number \<Rightarrow> Registers \<Rightarrow> Registers" where
  "set_r v regs = regs\<lparr>regR := toFloat32 v\<rparr>"

definition set_y :: "number \<Rightarrow> Registers \<Rightarrow> Registers" where
  "set_y v regs = regs\<lparr>regY := toFloat32 v\<rparr>"

fun registersGet :: "Registers \<Rightarrow> RegisterName \<Rightarrow> number" where
  "registersGet regs PC = programCounter regs"
| "registersGet regs AS = argumentStackPointer regs"
| "registersGet regs JS = jumpStackPointer regs"
| "registersGet regs (GP RegT) = regT regs"
| "registersGet regs (GP RegR) = regR regs"
| "registersGet regs (GP RegY) = regY regs"

fun registersSet :: "RegisterName \<Rightarrow> number \<Rightarrow> Registers \<Rightarrow> Registers" where
  "registersSet PC v regs = set_programCounter v regs"
| "registersSet AS v regs = set_argumentStackPointer v regs"
| "registersSet JS v regs = set_jumpStackPointer v regs"
| "registersSet (GP RegT) v regs = set_t v regs"
| "registersSet (GP RegR) v regs = set_r v regs"
| "registersSet (GP RegY) v regs = set_y v regs"

definition registersReset :: "Registers \<Rightarrow> Registers" where
  "registersReset regs =
     set_y (Fin 0) (set_r (Fin 0) (set_t (Fin 0)
       (set_jumpStackPointer (Fin 0) (set_argumentStackPointer (Fin 0)
         (set_programCounter (Fin 0) regs)))))"

definition newRegisters :: Registers where
  "newRegisters =
     \<lparr>programCounter = Fin 0, argumentStackPointer = Fin 0, jumpStackPointer = Fin 0,
      regT = Fin 0, regR = Fin 0, regY = Fin 0\<rparr>"


section \<open>The machine\<close>

definition BYTES_PER_MB :: nat where
  "BYTES_PER_MB = 1048576"

definition MAX_PROGRAM_SIZE :: nat where
  "MAX_PROGRAM_SIZE = 3 * BYTES_PER_MB"

record Gsx =
  registers :: Registers
  ram :: "byte list"
  argumentStack :: "number list"
  jumpStack :: "32 word list"

definition newGsx :: Gsx where
  "newGsx =
     \<lparr>registers = newRegisters, ram = replicate (3 * BYTES_PER_MB) 0,
      argumentStack = replicate 256 (Fin 0), jumpStack = replicate 256 0\<rparr>"

definition reset :: "Gsx \<Rightarrow> Gsx" where
  "reset gsx =
     gsx\<lparr>registers := registersReset (registers gsx), ram := replicate (length (ram gsx)) 0\<rparr>"

text \<open>A machine that has been used: registers, RAM and both stacks hold something.\<close>

definition usedGsx :: Gsx where
  "usedGsx =
     \<lparr>registers =
        \<lparr>programCounter = Fin 24, argumentStackPointer = Fin 1, jumpStackPointer = Fin 2,
         regT = Fin 2, regR = Fin 3, regY = Fin 30\<rparr>,
      ram = (ram newGsx)[2 := 30],
      argumentStack = (replicate 256 (Fin 0))[0 := Fin 30],
      jumpStack = (replicate 256 0)[0 := 100, 1 := 24]\<rparr>"

text \<open>A call either returns, or throws and leaves the machine as it was at the throw.\<close>

datatype outcome = Normal Gsx | Thrown error Gsx


section \<open>The instructions\<close>

text \<open>
  The source keeps one closure per opcode. The closures are of eleven shapes, each fixed by
  the registers (and the operator) it closes over; an \<open>Instruction\<close> names the shape and
  those registers, and \<open>call\<close> is the closure's body.
\<close>

datatype Operator = Plus | Times | Minus | Divide

datatype Instruction =
    ByteToRegister GeneralPurposeRegisterName
  | FloatToRegister GeneralPurposeRegisterName
  | Exit
  | Run GeneralPurposeRegisterName
  | Push GeneralPurposeRegisterName
  | Pop GeneralPurposeRegisterName
  | RamByteToRegister GeneralPurposeRegisterName GeneralPurposeRegisterName
  | RamFloatToRegister GeneralPurposeRegisterName GeneralPurposeRegisterName
  | RegisterToRamByte GeneralPurposeRegisterName GeneralPurposeRegisterName
  | RegisterToRamFloat GeneralPurposeRegisterName GeneralPurposeRegisterName
  | Arithmetic GeneralPurposeRegisterName Operator GeneralPurposeRegisterName
      GeneralPurposeRegisterName

fun applyOperator :: "Operator \<Rightarrow> number \<Rightarrow> number \<Rightarrow> number" where
  "applyOperator Plus a b = num_add a b"
| "applyOperator Times a b = num_mul a b"
| "applyOperator Minus a b = num_sub a b"
| "applyOperator Divide a b = num_div a b"

definition withRegisters :: "(Registers \<Rightarrow> Registers) \<Rightarrow> Gsx \<Rightarrow> Gsx" where
  "withRegisters f gsx = gsx\<lparr>registers := f (registers gsx)\<rparr>"

fun call :: "Instruction \<Rightarrow> Gsx \<Rightarrow> byte list \<Rightarrow> outcome" where
  "call (ByteToRegister register) gsx programBytecode =
     (case getInt8 programBytecode (programCounter (registers gsx)) of
        Inl e \<Rightarrow> Thrown e gsx
      | Inr v \<Rightarrow>
          (let gsx1 = withRegisters (registersSet (GP register) v) gsx
           in Normal (withRegisters
                (set_programCounter (num_add (programCounter (registers gsx1)) (Fin 1))) gsx1)))"
| "call (FloatToRegister register) gsx programBytecode =
     (case getFloat32 programBytecode (programCounter (registers gsx)) of
        Inl e \<Rightarrow> Thrown e gsx
      | Inr v \<Rightarrow>
          (let gsx1 = withRegisters (registersSet (GP register) v) gsx
           in Normal (withRegisters
                (set_programCounter (num_add (programCounter (registers gsx1)) (Fin 4))) gsx1)))"
| "call Exit gsx programBytecode =
     (if num_eq (jumpStackPointer (registers gsx)) (Fin 0) then
        Normal (withRegisters (set_programCounter UINT32_MAX) gsx)
      else
        (let gsx1 = withRegisters
               (set_jumpStackPointer (num_sub (jumpStackPointer (registers gsx)) (Fin 1))) gsx
         in Normal (withRegisters
              (set_programCounter
                 (uint32ArrayGet (jumpStack gsx1) (jumpStackPointer (registers gsx1)))) gsx1)))"
| "call (Run register) gsx programBytecode =
     (let gsx1 = gsx\<lparr>jumpStack :=
                   uint32ArraySet (jumpStack gsx) (jumpStackPointer (registers gsx))
                     (num_add (Fin 1) (programCounter (registers gsx)))\<rparr>;
          gsx2 = withRegisters
                   (set_jumpStackPointer (num_add (jumpStackPointer (registers gsx1)) (Fin 1))) gsx1
      in Normal (withRegisters
           (set_programCounter (registersGet (registers gsx2) (GP register))) gsx2))"
| "call (Push register) gsx programBytecode =
     (let gsx1 = gsx\<lparr>argumentStack :=
                   float32ArraySet (argumentStack gsx) (argumentStackPointer (registers gsx))
                     (registersGet (registers gsx) (GP register))\<rparr>
      in Normal (withRegisters
           (set_argumentStackPointer (num_add (argumentStackPointer (registers gsx1)) (Fin 1)))
           gsx1))"
| "call (Pop register) gsx programBytecode =
     (let gsx1 = withRegisters
                   (set_argumentStackPointer
                      (num_sub (argumentStackPointer (registers gsx)) (Fin 1))) gsx
      in Normal (withRegisters
           (registersSet (GP register)
              (float32ArrayGet (argumentStack gsx1) (argumentStackPointer (registers gsx1))))
           gsx1))"
| "call (RamByteToRegister addressRegister valueRegister) gsx programBytecode =
     (let address = registersGet (registers gsx) (GP addressRegister)
      in case getInt8 (ram gsx) address of
           Inl e \<Rightarrow> Thrown e gsx
         | Inr byteFromRam \<Rightarrow>
             Normal (withRegisters (registersSet (GP valueRegister) byteFromRam) gsx))"
| "call (RamFloatToRegister addressRegister valueRegister) gsx programBytecode =
     (let address = registersGet (registers gsx) (GP addressRegister)
      in case getFloat32 (ram gsx) address of
           Inl e \<Rightarrow> Thrown e gsx
         | Inr floatFromRam \<Rightarrow>
             Normal (withRegisters (registersSet (GP valueRegister) floatFromRam) gsx))"
| "call (RegisterToRamByte addressRegister valueRegister) gsx programBytecode =
     (let byte = registersGet (registers gsx) (GP valueRegister);
          address = registersGet (registers gsx) (GP addressRegister)
      in case setInt8 (ram gsx) address byte of
           Inl e \<Rightarrow> Thrown e gsx
         | Inr ram' \<Rightarrow> Normal (gsx\<lparr>ram := ram'\<rparr>))"
| "call (RegisterToRamFloat addressRegister valueRegister) gsx programBytecode =
     (let float = registersGet (registers gsx) (GP valueRegister);
          address = registersGet (registers gsx) (GP addressRegister)
      in case setFloat32 (ram gsx) address float of
           Inl e \<Rightarrow> Thrown e gsx
         | Inr ram' \<Rightarrow> Normal (gsx\<lparr>ram := ram'\<rparr>))"
| "call (Arithmetic register operator operand1 operand2) gsx programBytecode =
     Normal (withRegisters
       (registersSet (GP register)
          (applyOperator operator (registersGet (registers gsx) (GP operand1))
             (registersGet (registers gsx) (GP operand2)))) gsx)"


section \<open>Strings\<close>

text \<open>
  Program text is a \<open>string\<close>: a list of 8-bit characters, read as the code units
  \<open>0 .. 255\<close> (Latin-1). On these, \<open>\s\<close> matches tab, line feed, vertical tab, form feed,
  carriage return, space and the no-break space; \<open>.\<close> matches everything but line feed and
  carriage return; \<open>toLowerCase\<close> moves \<open>A .. Z\<close> and the accented capitals down by 32.
\<close>

definition isWhiteSpace :: "char \<Rightarrow> bool" where
  "isWhiteSpace c = (of_char c \<in> {9, 10, 11, 12, 13, 32, 160 :: nat})"

definition isLineTerminator :: "char \<Rightarrow> bool" where
  "isLineTerminator c = (of_char c \<in> {10, 13 :: nat})"

definition toLowerCaseChar :: "char \<Rightarrow> char" where
  "toLowerCaseChar c =
     (let n = of_char c :: nat
      in if (65 \<le> n \<and> n \<le> 90) \<or> (192 \<le> n \<and> n \<le> 222 \<and> n \<noteq> 215)
         then char_of (n + 32) else c)"

definition toLowerCase :: "string \<Rightarrow> string" where
  "toLowerCase s = map toLowerCaseChar s"

text \<open>\<open>replace(/\s+|#.*/g, '')\<close>: scanning from the left, a run of white space is dropped, and
  so is a \<open>#\<close> together with everything up to the next line terminator.\<close>

function removeWhitespaceAndComments :: "string \<Rightarrow> string" where
  "removeWhitespaceAndComments [] = []"
| "removeWhitespaceAndComments (c # cs) =
     (if isWhiteSpace c then removeWhitespaceAndComments cs
      else if c = CHR ''#'' then
        removeWhitespaceAndComments (dropWhile (\<lambda>d. \<not> isLineTerminator d) cs)
      else c # removeWhitespaceAndComments cs)"
  by pat_completeness auto
termination
  by (relation "measure length") (auto simp: less_Suc_eq_le length_dropWhile_le)

definition normalizeMnemonic :: "string \<Rightarrow> string" where
  "normalizeMnemonic mnemonic = toLowerCase (removeWhitespaceAndComments mnemonic)"

definition assign :: "string \<Rightarrow> string \<Rightarrow> string" where
  "assign to from = ''new '' @ to @ '' = '' @ from"

text \<open>\<open>split('\n')\<close>: always at least one line.\<close>

fun splitLines :: "string \<Rightarrow> string list" where
  "splitLines [] = [[]]"
| "splitLines (c # cs) =
     (if c = CHR 0x0A then [] # splitLines cs
      else (case splitLines cs of l # ls \<Rightarrow> (c # l) # ls | [] \<Rightarrow> [[c]]))"


section \<open>The opcode table\<close>

definition generalPurposeRegisters :: "GeneralPurposeRegisterName list" where
  "generalPurposeRegisters = [RegT, RegR, RegY]"

fun otherTwo :: "GeneralPurposeRegisterName \<Rightarrow> GeneralPurposeRegisterName list" where
  "otherTwo RegT = [RegR, RegY]"
| "otherTwo RegR = [RegT, RegY]"
| "otherTwo RegY = [RegT, RegR]"

text \<open>A register name as it is spliced into a mnemonic.\<close>

fun letter :: "GeneralPurposeRegisterName \<Rightarrow> string" where
  "letter RegT = ''t''"
| "letter RegR = ''r''"
| "letter RegY = ''y''"

text \<open>
  The two module-level tables, as they grow while the module is loaded:
  \<open>bytecodeByKeyableMnemonic\<close> (the object's own properties, in insertion order) and
  \<open>instructionByBytecode\<close>.
\<close>

type_synonym tables = "(string \<times> nat) list \<times> Instruction list"

definition pushInstruction :: "Instruction \<Rightarrow> tables \<Rightarrow> tables" where
  "pushInstruction instruction tbs = (fst tbs, snd tbs @ [instruction])"

definition defineInstruction :: "string list \<Rightarrow> Instruction \<Rightarrow> tables \<Rightarrow> tables" where
  "defineInstruction mnemonics instruction tbs =
     (let normalizedMnemonics = map normalizeMnemonic mnemonics;
          bytecode = length (snd tbs)
      in (fold (\<lambda>mnemonic dict. AList.update mnemonic bytecode dict) normalizedMnemonics
            (fst tbs),
          snd tbs @ [instruction]))"

text \<open>Statements run one after the other.\<close>

definition inOrder :: "('s \<Rightarrow> 's) list \<Rightarrow> 's \<Rightarrow> 's" where
  "inOrder statements = fold (\<lambda>statement. statement) statements"

text \<open>The three-operand and the target-in-operand forms of a non-commutative operator:
  two loops over the registers, of two and of four definitions.\<close>

definition defineThreeOperand :: "Operator \<Rightarrow> string \<Rightarrow> tables \<Rightarrow> tables" where
  "defineThreeOperand operator sign =
     fold (\<lambda>register.
       case otherTwo register of
         [other1, other2] \<Rightarrow>
           inOrder
             [defineInstruction [assign (letter register) (letter other1 @ sign @ letter other2)]
                (Arithmetic register operator other1 other2),
              defineInstruction [assign (letter register) (letter other2 @ sign @ letter other1)]
                (Arithmetic register operator other2 other1)]
       | _ \<Rightarrow> id) generalPurposeRegisters"

definition defineTargetInOperand :: "Operator \<Rightarrow> string \<Rightarrow> tables \<Rightarrow> tables" where
  "defineTargetInOperand operator sign =
     fold (\<lambda>register.
       case otherTwo register of
         [other1, other2] \<Rightarrow>
           inOrder
             [defineInstruction [assign (letter register) (letter register @ sign @ letter other1)]
                (Arithmetic register operator register other1),
              defineInstruction [assign (letter register) (letter register @ sign @ letter other2)]
                (Arithmetic register operator register other2),
              defineInstruction [assign (letter register) (letter other1 @ sign @ letter register)]
                (Arithmetic register operator other1 register),
              defineInstruction [assign (letter register) (letter other2 @ sign @ letter register)]
                (Arithmetic register operator other2 register)]
       | _ \<Rightarrow> id) generalPurposeRegisters"

text \<open>A commutative operator on the other two registers: both orders name one opcode.\<close>

definition defineOtherTwo :: "Operator \<Rightarrow> string \<Rightarrow> tables \<Rightarrow> tables" where
  "defineOtherTwo operator sign =
     fold (\<lambda>register.
       case otherTwo register of
         [other1, other2] \<Rightarrow>
           defineInstruction [assign (letter register) (letter other1 @ sign @ letter other2),
                   assign (letter register) (letter other2 @ sign @ letter other1)]
             (Arithmetic register operator other1 other2)
       | _ \<Rightarrow> id) generalPurposeRegisters"

definition defineWithOther ::
  "Operator \<Rightarrow> string \<Rightarrow> GeneralPurposeRegisterName \<Rightarrow> tables \<Rightarrow> tables" where
  "defineWithOther operator sign register =
     fold (\<lambda>otherRegister.
       defineInstruction [assign (letter register) (letter register @ sign @ letter otherRegister),
               assign (letter register) (letter otherRegister @ sign @ letter register)]
         (Arithmetic register operator register otherRegister)) (otherTwo register)"

text \<open>
  The statements of the module, in order. The loop that defines "a register times another
  register" is closed only at the end of the file, so the subtraction and division loops
  are inside its body and run once for each of its three iterations.
\<close>

definition moduleStatements :: "(tables \<Rightarrow> tables) list" where
  "moduleStatements =
     [fold (\<lambda>register. pushInstruction (ByteToRegister register)) generalPurposeRegisters,
      fold (\<lambda>register. pushInstruction (FloatToRegister register)) generalPurposeRegisters,
      defineInstruction [''exit''] Exit,
      fold (\<lambda>register. defineInstruction [''run '' @ letter register] (Run register))
        generalPurposeRegisters,
      fold (\<lambda>register. defineInstruction [''push '' @ letter register] (Push register))
        generalPurposeRegisters,
      fold (\<lambda>register. defineInstruction [assign (letter register) ''pop''] (Pop register))
        generalPurposeRegisters,
      fold (\<lambda>addressRegister. fold (\<lambda>valueRegister.
          defineInstruction [assign (letter valueRegister) (''ram['' @ letter addressRegister @ ''] byte'')]
            (RamByteToRegister addressRegister valueRegister)) generalPurposeRegisters)
        generalPurposeRegisters,
      fold (\<lambda>addressRegister. fold (\<lambda>valueRegister.
          defineInstruction [assign (letter valueRegister) (''ram['' @ letter addressRegister @ ''] float'')]
            (RamFloatToRegister addressRegister valueRegister)) generalPurposeRegisters)
        generalPurposeRegisters,
      fold (\<lambda>addressRegister. fold (\<lambda>valueRegister.
          defineInstruction [assign (''ram['' @ letter addressRegister @ ''] byte'') (letter valueRegister)]
            (RegisterToRamByte addressRegister valueRegister)) (otherTwo addressRegister))
        generalPurposeRegisters,
      fold (\<lambda>addressRegister. fold (\<lambda>valueRegister.
          defineInstruction [assign (''ram['' @ letter addressRegister @ ''] float'') (letter valueRegister)]
            (RegisterToRamFloat addressRegister valueRegister)) (otherTwo addressRegister))
        generalPurposeRegisters,
      defineOtherTwo Plus '' + '',
      fold (\<lambda>register.
          defineInstruction [assign (letter register) (letter register @ '' + '' @ letter register),
                  assign (letter register) (''2 * '' @ letter register),
                  assign (letter register) (letter register @ '' * 2'')]
            (Arithmetic register Plus register register)) generalPurposeRegisters,
      fold (defineWithOther Plus '' + '') generalPurposeRegisters,
      defineOtherTwo Times '' * '',
      fold (\<lambda>register.
          defineInstruction [assign (letter register) (letter register @ '' * '' @ letter register),
                  assign (letter register) (letter register @ ''^2'')]
            (Arithmetic register Times register register)) generalPurposeRegisters,
      fold (\<lambda>register.
          inOrder
            [defineWithOther Times '' * '' register,
             defineThreeOperand Minus '' - '',
             defineTargetInOperand Minus '' - '',
             defineThreeOperand Divide '' / '',
             defineTargetInOperand Divide '' / '']) generalPurposeRegisters]"

definition loadedModule :: tables where
  "loadedModule = inOrder moduleStatements ([], [])"

definition bytecodeByKeyableMnemonic :: "(string \<times> nat) list" where
  "bytecodeByKeyableMnemonic = fst loadedModule"

definition instructionByBytecode :: "Instruction list" where
  "instructionByBytecode = snd loadedModule"

text \<open>Calling the entry of the table; an index past its end is \<open>undefined\<close>, and calling
  \<open>undefined\<close> throws a TypeError.\<close>

definition runInstruction :: "nat \<Rightarrow> Gsx \<Rightarrow> byte list \<Rightarrow> outcome" where
  "runInstruction instructionBytecode gsx programBytecode =
     (if instructionBytecode < length instructionByBytecode
      then call (instructionByBytecode ! instructionBytecode) gsx programBytecode
      else Thrown TypeError gsx)"


section \<open>Running a program\<close>

text \<open>One turn of the loop of \<open>runProgram\<close>: fetch, advance, dispatch.\<close>

definition fetchAndRun :: "byte list \<Rightarrow> Gsx \<Rightarrow> outcome" where
  "fetchAndRun program gsx =
     (case toIndex (programCounter (registers gsx)) of
        None \<Rightarrow> Thrown RangeError gsx
      | Some i \<Rightarrow>
          if length program < i + 1 then Thrown RangeError gsx
          else (let instructionBytecode = unat (program ! i);
                    gsx1 = withRegisters
                      (set_programCounter (num_add (programCounter (registers gsx)) (Fin 1))) gsx
                in runInstruction instructionBytecode gsx1 program))"

text \<open>The loop may run forever: \<open>None\<close> is a run that never returns.\<close>

partial_function (option) runLoop :: "byte list \<Rightarrow> Gsx \<Rightarrow> outcome option" where
  "runLoop program gsx =
     (if num_lt (programCounter (registers gsx)) (ofNat (length program)) then
        (case fetchAndRun program gsx of
           Normal gsx' \<Rightarrow> runLoop program gsx'
         | Thrown e gsx' \<Rightarrow> Some (Thrown e gsx'))
      else Some (Normal gsx))"

definition runProgram :: "byte list \<Rightarrow> Gsx \<Rightarrow> outcome option" where
  "runProgram program gsx =
     (if MAX_PROGRAM_SIZE \<le> length program then Some (Thrown ProgramTooLarge gsx)
      else runLoop program gsx)"


section \<open>The assembler\<close>

definition isDigit :: "char \<Rightarrow> bool" where
  "isDigit c = (48 \<le> (of_char c :: nat) \<and> (of_char c :: nat) \<le> 57)"

definition digitsValue :: "string \<Rightarrow> nat" where
  "digitsValue ds = foldl (\<lambda>acc c. 10 * acc + (of_char c - 48)) 0 ds"

text \<open>
  \<open>parseFloat\<close> and \<open>parseInt(_, 10)\<close> on text without an exponent part: an optional sign,
  the longest run of digits and, for \<open>parseFloat\<close>, a dot and a further run of digits;
  whatever follows is ignored. The value is the double nearest to the decimal.
\<close>

definition stripSign :: "string \<Rightarrow> bool \<times> string" where
  "stripSign s =
     (case s of
        c # cs \<Rightarrow> if c = CHR ''-'' then (True, cs) else if c = CHR ''+'' then (False, cs)
                  else (False, s)
      | [] \<Rightarrow> (False, s))"

definition parseFloat :: "string \<Rightarrow> number" where
  "parseFloat s =
     (case stripSign s of (neg, body) \<Rightarrow>
        let whole = takeWhile isDigit body;
            rest = dropWhile isDigit body;
            fraction = (case rest of c # cs \<Rightarrow> if c = CHR ''.'' then takeWhile isDigit cs else []
                        | [] \<Rightarrow> [])
        in if whole = [] \<and> fraction = [] then NaN
           else roundBinary 53 (- 1022) 1023 neg
                  (of_nat (digitsValue whole)
                   + of_nat (digitsValue fraction) / 10 ^ length fraction))"

definition parseInt :: "string \<Rightarrow> number" where
  "parseInt s =
     (case stripSign s of (neg, body) \<Rightarrow>
        let whole = takeWhile isDigit body
        in if whole = [] then NaN
           else roundBinary 53 (- 1022) 1023 neg (of_nat (digitsValue whole)))"

text \<open>The text the group \<open>(-?\d+(?:\.\d+)?)\<close> may capture, up to the end of the input.\<close>

definition isSignedDecimal :: "string \<Rightarrow> bool" where
  "isSignedDecimal s =
     (let body = (case s of c # cs \<Rightarrow> if c = CHR ''-'' then cs else s | [] \<Rightarrow> s);
          whole = takeWhile isDigit body;
          rest = dropWhile isDigit body
      in whole \<noteq> [] \<and>
         (rest = [] \<or>
          (case rest of c # cs \<Rightarrow> c = CHR ''.'' \<and> cs \<noteq> [] \<and> list_all isDigit cs
           | [] \<Rightarrow> False)))"

text \<open>The match of \<open>/^new([try])=(-?\d+(?:\.\d+)?)$/\<close>: the two captures.\<close>

definition matchConstantAssignment ::
  "string \<Rightarrow> (GeneralPurposeRegisterName \<times> string) option" where
  "matchConstantAssignment s =
     (case s of
        n # e # w # reg # eq # constantAsString \<Rightarrow>
          if [n, e, w] = ''new'' \<and> eq = CHR ''='' \<and> isSignedDecimal constantAsString then
            (if reg = CHR ''t'' then Some (RegT, constantAsString)
             else if reg = CHR ''r'' then Some (RegR, constantAsString)
             else if reg = CHR ''y'' then Some (RegY, constantAsString)
             else None)
          else None
      | _ \<Rightarrow> None)"

text \<open>The enumeration \<open>BytecodeForConstantAssignment\<close>: 0 .. 5.\<close>

fun ByteToRegisterBytecode :: "GeneralPurposeRegisterName \<Rightarrow> nat" where
  "ByteToRegisterBytecode RegT = 0"
| "ByteToRegisterBytecode RegR = 1"
| "ByteToRegisterBytecode RegY = 2"

fun FloatToRegisterBytecode :: "GeneralPurposeRegisterName \<Rightarrow> nat" where
  "FloatToRegisterBytecode RegT = 3"
| "FloatToRegisterBytecode RegR = 4"
| "FloatToRegisterBytecode RegY = 5"

text \<open>\<open>getFloatBytes\<close>: the four bytes \<open>setFloat32\<close> writes, each read back with \<open>getInt8\<close>.\<close>

definition getFloatBytes :: "number \<Rightarrow> number list" where
  "getFloatBytes v = map (\<lambda>b. Fin (of_int (sint b))) (bytesOfBits (float32Bits v))"

definition tryToGetBytecodeForConstantAssignment :: "string \<Rightarrow> number list option" where
  "tryToGetBytecodeForConstantAssignment normalizedMnemonic =
     (case matchConstantAssignment normalizedMnemonic of
        None \<Rightarrow> None
      | Some (register, constantAsString) \<Rightarrow>
          let constant = parseFloat constantAsString;
              isConstantAByte =
                (num_ge constant INT8_MIN \<and> num_le constant INT8_MAX \<and>
                 num_eq constant (parseInt constantAsString))
          in if isConstantAByte then
               Some [ofNat (ByteToRegisterBytecode register), constant]
             else
               Some (ofNat (FloatToRegisterBytecode register) # getFloatBytes constant))"

text \<open>
  Reading the property \<open>bytecodeByKeyableMnemonic[key]\<close>. The table is an object literal,
  so a key it does not own is looked up on \<open>Object.prototype\<close>; of the names defined
  there, \<open>constructor\<close> and \<open>__proto__\<close> are the two that normalization leaves as they are.
  Their values are objects, not \<open>undefined\<close>.
\<close>

datatype property = Undefined | Bytecode nat | Inherited

definition lookupMnemonic :: "(string \<times> nat) list \<Rightarrow> string \<Rightarrow> property" where
  "lookupMnemonic dict key =
     (case map_of dict key of
        Some bytecode \<Rightarrow> Bytecode bytecode
      | None \<Rightarrow> if key = ''constructor'' \<or> key = ''__proto__'' then Inherited else Undefined)"

text \<open>The element a value becomes in the byte array: a number, or \<open>NaN\<close> for an object.\<close>

fun toNumber :: "property \<Rightarrow> number" where
  "toNumber (Bytecode b) = ofNat b"
| "toNumber _ = NaN"

text \<open>
  The body of the loop over the lines. \<open>localeString\<close> stands for
  \<open>Number.prototype.toLocaleString\<close> in the locale of the host.
\<close>

definition translateLine ::
  "(nat \<Rightarrow> string) \<Rightarrow> nat \<times> string \<Rightarrow> string list \<times> number list
     \<Rightarrow> string list \<times> number list" where
  "translateLine localeString indexedLine acc =
     (case indexedLine of (lineIndex, line) \<Rightarrow>
      case acc of (syntaxErrors, programBytes) \<Rightarrow>
        let normalizedMnemonic = normalizeMnemonic line
        in if normalizedMnemonic = [] then (syntaxErrors, programBytes)
           else
             (let possibleBytecode = lookupMnemonic bytecodeByKeyableMnemonic normalizedMnemonic
              in if possibleBytecode \<noteq> Undefined then
                   (if syntaxErrors = [] then
                      (syntaxErrors, programBytes @ [toNumber possibleBytecode])
                    else (syntaxErrors, programBytes))
                 else
                   (case tryToGetBytecodeForConstantAssignment normalizedMnemonic of
                      None \<Rightarrow>
                        (syntaxErrors @
                           [''Unknown instruction ('' @ line @ '') on line '' @
                              localeString (lineIndex + 1) @ ''.''],
                         programBytes)
                    | Some bytecodeForConstantAssignment \<Rightarrow>
                        (syntaxErrors, programBytes @ bytecodeForConstantAssignment))))"

definition translateToBytecode :: "(nat \<Rightarrow> string) \<Rightarrow> string \<Rightarrow> byte list \<times> string list" where
  "translateToBytecode localeString program =
     (let programLines = splitLines program
      in case fold (translateLine localeString) (enumerate 0 programLines) ([], []) of
           (syntaxErrors, programBytes) \<Rightarrow>
             (if syntaxErrors \<noteq> [] then []
              else map (\<lambda>v. word_of_int (toInteger v)) programBytes,
              syntaxErrors))"

text \<open>Grouping by thousands, as \<open>toLocaleString\<close> does in the locale \<open>en-US\<close>.\<close>

function decimalDigits :: "nat \<Rightarrow> string" where
  "decimalDigits n =
     (if n < 10 then [char_of (48 + n)] else decimalDigits (n div 10) @ [char_of (48 + n mod 10)])"
  by pat_completeness auto
termination
  by (relation "measure id") auto

function groupThousands :: "string \<Rightarrow> string" where
  "groupThousands ds =
     (if length ds \<le> 3 then ds
      else groupThousands (take (length ds - 3) ds) @ '','' @ drop (length ds - 3) ds)"
  by pat_completeness auto
termination
  by (relation "measure length") auto

definition toLocaleString_en_US :: "nat \<Rightarrow> string" where
  "toLocaleString_en_US n = groupThousands (decimalDigits n)"

text \<open>The integer that a signed run of digits denotes.\<close>

definition signedDigitsValue :: "string \<Rightarrow> int" where
  "signedDigitsValue s =
     (case stripSign s of (neg, body) \<Rightarrow>
        (if neg then - 1 else 1) * int (digitsValue (takeWhile isDigit body)))"


section \<open>Views of the tables\<close>

text \<open>The keys of the dictionary, and the opcode a key is bound to.\<close>

definition keysOf :: "tables \<Rightarrow> string set" where
  "keysOf tbs = fst ` set (fst tbs)"

definition lookupIn :: "tables \<Rightarrow> string \<Rightarrow> nat option" where
  "lookupIn tbs key = map_of (fst tbs) key"

definition distinctKeys :: "tables \<Rightarrow> bool" where
  "distinctKeys tbs = distinct (map fst (fst tbs))"


section \<open>Facts about rounding\<close>

lemma pow2_powi: "pow2 k = 2 powi k"
  by (simp add: pow2_def power_int_def inverse_eq_divide power_one_over)

lemma pow2_pos [simp]: "0 < pow2 k"
  by (simp add: pow2_powi)

lemma pow2_nonzero [simp]: "pow2 k \<noteq> 0"
  using pow2_pos[of k] by linarith

lemma pow2_add: "pow2 (a + b) = pow2 a * pow2 b"
  by (simp add: pow2_powi power_int_add)

lemma pow2_nat: "0 \<le> k \<Longrightarrow> pow2 k = 2 ^ nat k"
  by (simp add: pow2_def)

lemma pow2_less_iff [simp]: "pow2 a < pow2 b \<longleftrightarrow> a < b"
  by (metis pow2_powi power_int_strict_increasing power_int_increasing linorder_not_less
      one_less_numeral_iff semiring_norm(76) less_eq_real_def order_le_less)

lemma pow2_le_iff [simp]: "pow2 a \<le> pow2 b \<longleftrightarrow> a \<le> b"
  by (metis pow2_less_iff linorder_not_less)

lemma ilog2_lower: "0 < a \<Longrightarrow> pow2 (ilog2 a) \<le> a"
proof (cases "1 \<le> a")
  case True
  assume "0 < a"
  from True have pos: "0 < \<lfloor>a\<rfloor>" by simp
  have b1: "1 \<le> bitlen \<lfloor>a\<rfloor>"
    using bitlen_eq_zero_iff[of "\<lfloor>a\<rfloor>"] bitlen_nonneg[of "\<lfloor>a\<rfloor>"] pos by linarith
  have "(2::int) ^ nat (bitlen \<lfloor>a\<rfloor> - 1) \<le> \<lfloor>a\<rfloor>"
    using bitlen_bounds[OF pos] by simp
  then have "of_int ((2::int) ^ nat (bitlen \<lfloor>a\<rfloor> - 1)) \<le> (of_int \<lfloor>a\<rfloor> :: rat)"
    by (simp only: of_int_le_iff)
  also have "\<dots> \<le> a" by simp
  finally show ?thesis using True b1 by (simp add: ilog2_def pow2_nat)
next
  case False
  assume apos: "0 < a"
  let ?m = "\<lceil>1 / a\<rceil>"
  from False apos have "1 < 1 / a" by simp
  then have m2: "2 \<le> ?m" by (simp add: le_ceiling_iff)
  then have pos: "0 < ?m - 1" by simp
  let ?j = "bitlen (?m - 1)"
  have "?m - 1 < 2 ^ nat ?j" using bitlen_bounds[OF pos] by simp
  then have "?m \<le> 2 ^ nat ?j" by simp
  then have "(of_int ?m :: rat) \<le> of_int (2 ^ nat ?j)" by (simp only: of_int_le_iff)
  then have "(of_int ?m :: rat) \<le> 2 ^ nat ?j" by (simp only: of_int_power of_int_numeral)
  moreover have "1 / a \<le> of_int ?m" by (rule le_of_int_ceiling)
  ultimately have "1 / a \<le> 2 ^ nat ?j" by (rule order_trans[rotated])
  then have "1 \<le> 2 ^ nat ?j * a" using apos by (simp add: field_simps)
  then have "1 / 2 ^ nat ?j \<le> a" by (simp add: field_simps)
  moreover have "pow2 (- ?j) = 1 / 2 ^ nat ?j"
    using bitlen_nonneg[of "?m - 1"] by (auto simp: pow2_def)
  ultimately show ?thesis using False by (simp add: ilog2_def)
qed

lemma ilog2_upper: "0 < a \<Longrightarrow> a < pow2 (ilog2 a + 1)"
proof (cases "1 \<le> a")
  case True
  assume "0 < a"
  from True have pos: "0 < \<lfloor>a\<rfloor>" by simp
  have "\<lfloor>a\<rfloor> < 2 ^ nat (bitlen \<lfloor>a\<rfloor>)" using bitlen_bounds[OF pos] by simp
  then have "\<lfloor>a\<rfloor> + 1 \<le> 2 ^ nat (bitlen \<lfloor>a\<rfloor>)" by simp
  then have "(of_int (\<lfloor>a\<rfloor> + 1) :: rat) \<le> of_int (2 ^ nat (bitlen \<lfloor>a\<rfloor>))"
    by (simp only: of_int_le_iff)
  moreover have "a < of_int (\<lfloor>a\<rfloor> + 1)" by linarith
  ultimately have "a < 2 ^ nat (bitlen \<lfloor>a\<rfloor>)" by simp
  then show ?thesis using True bitlen_nonneg[of "\<lfloor>a\<rfloor>"] by (simp add: ilog2_def pow2_nat)
next
  case False
  assume apos: "0 < a"
  let ?m = "\<lceil>1 / a\<rceil>"
  from False apos have "1 < 1 / a" by simp
  then have m2: "2 \<le> ?m" by (simp add: le_ceiling_iff)
  then have pos: "0 < ?m - 1" by simp
  let ?j = "bitlen (?m - 1)"
  have j1: "1 \<le> ?j"
    using bitlen_eq_zero_iff[of "?m - 1"] bitlen_nonneg[of "?m - 1"] pos by linarith
  have "2 ^ nat (?j - 1) \<le> ?m - 1" using bitlen_bounds[OF pos] by simp
  then have "(of_int (2 ^ nat (?j - 1)) :: rat) \<le> of_int (?m - 1)" by (simp only: of_int_le_iff)
  moreover have "of_int (?m - 1) < 1 / a" by (simp add: less_ceiling_iff[symmetric]) linarith
  ultimately have lt: "2 ^ nat (?j - 1) < 1 / a" by simp
  then have "2 ^ nat (?j - 1) * a < 1" using apos by (simp add: field_simps)
  then have "a < 1 / 2 ^ nat (?j - 1)" by (simp add: field_simps)
  moreover have "pow2 (- ?j + 1) = 1 / 2 ^ nat (?j - 1)"
    using j1 by (auto simp: pow2_def) 
  ultimately show ?thesis using False by (simp add: ilog2_def)
qed

lemma ilog2_unique:
  assumes "pow2 k \<le> a" "a < pow2 (k + 1)"
  shows "ilog2 a = k"
proof -
  have apos: "0 < a" using assms(1) pow2_pos[of k] by linarith
  have "pow2 (ilog2 a) < pow2 (k + 1)" using ilog2_lower[OF apos] assms(2) by linarith
  moreover have "pow2 k < pow2 (ilog2 a + 1)" using ilog2_upper[OF apos] assms(1) by linarith
  ultimately show ?thesis by simp
qed

lemma roundHalfEven_of_int [simp]: "roundHalfEven (of_int n) = n"
  by (simp add: roundHalfEven_def)

lemma roundHalfEven_ge: "of_int k \<le> m \<Longrightarrow> k \<le> roundHalfEven m"
proof -
  assume "of_int k \<le> m"
  then have "k \<le> \<lfloor>m\<rfloor>" by (simp add: le_floor_iff)
  then show ?thesis by (auto simp: roundHalfEven_def Let_def)
qed

lemma roundHalfEven_le: "m \<le> of_int k \<Longrightarrow> roundHalfEven m \<le> k"
proof -
  assume a: "m \<le> of_int k"
  show ?thesis
  proof (cases "m = of_int k")
    case True then show ?thesis by simp
  next
    case False
    with a have "m < of_int k" by simp
    then have "\<lfloor>m\<rfloor> < k" by (simp add: floor_less_iff)
    then show ?thesis by (auto simp: roundHalfEven_def Let_def)
  qed
qed


lemma decompose_exact:
  assumes m: "0 < m" "m < 2 ^ p" and k: "emin - int p + 1 \<le> k"
  shows "\<exists>d. decompose p emin (of_int m * pow2 k) = (m * 2 ^ d, max (ilog2 (of_int m * pow2 k)) emin)
           \<and> of_int (m * 2 ^ d) * pow2 (max (ilog2 (of_int m * pow2 k)) emin - int p + 1)
               = (of_int m * pow2 k :: rat)"
proof -
  let ?a = "of_int m * pow2 k :: rat"
  let ?e = "max (ilog2 ?a) emin"
  have apos: "0 < ?a" using m(1) by simp
  have "(of_int m :: rat) < of_int (2 ^ p)" using m(2) by (simp only: of_int_less_iff)
  then have "(of_int m :: rat) < pow2 (int p)" by (simp add: pow2_nat)
  then have "?a < pow2 (int p) * pow2 k" by simp
  then have "?a < pow2 (int p + k)" by (simp add: pow2_add)
  then have "pow2 (ilog2 ?a) < pow2 (int p + k)" using ilog2_lower[OF apos] by linarith
  then have "ilog2 ?a < int p + k" by simp
  then have e_le: "?e \<le> k + int p - 1" using k by simp
  define d where "d = nat (k + int p - 1 - ?e)"
  have dk: "k = (?e - int p + 1) + int d" using e_le by (simp add: d_def)
  have "pow2 k = pow2 (?e - int p + 1) * pow2 (int d)" by (subst dk) (rule pow2_add)
  then have split: "pow2 k = pow2 (?e - int p + 1) * 2 ^ d" by (simp add: pow2_nat)
  have "?a / pow2 (?e - int p + 1) = of_int m * 2 ^ d"
    by (subst split) simp
  also have "\<dots> = of_int (m * 2 ^ d)" by simp
  finally have q: "?a / pow2 (?e - int p + 1) = of_int (m * 2 ^ d)" .
  have "decompose p emin ?a = (m * 2 ^ d, ?e)"
    unfolding decompose_def Let_def q roundHalfEven_of_int ..
  moreover have "of_int (m * 2 ^ d) * pow2 (?e - int p + 1) = ?a"
    by (subst (2) split) simp
  ultimately show ?thesis by blast
qed

lemma roundBinary_exact:
  assumes m: "0 < m" "m < 2 ^ p" and k: "emin - int p + 1 \<le> k"
    and hi: "of_int m * pow2 k < pow2 (emax + 1)"
  shows "roundBinary p emin emax neg (of_int m * pow2 k)
           = Fin (if neg then - (of_int m * pow2 k) else of_int m * pow2 k)"
proof -
  let ?a = "of_int m * pow2 k :: rat"
  obtain d where dec: "decompose p emin ?a = (m * 2 ^ d, max (ilog2 ?a) emin)"
    and val: "of_int (m * 2 ^ d) * pow2 (max (ilog2 ?a) emin - int p + 1) = ?a"
    using decompose_exact[OF m k] by blast
  have "?a \<noteq> 0" using m(1) by simp
  moreover have "m * 2 ^ d \<noteq> 0" using m(1) by simp
  ultimately show ?thesis
    using hi unfolding roundBinary_def dec by (simp only: val Let_def split if_False not_le[symmetric]) 
qed

lemma toDouble_of_int:
  assumes "\<bar>n\<bar> < 2 ^ 53"
  shows "toDouble (of_int n) = Fin (of_int n)"
proof (cases "n = 0")
  case True
  then show ?thesis by (simp add: toDouble_def roundBinary_def signedZero_def)
next
  case False
  then have pos: "0 < \<bar>n\<bar>" by simp
  have "(of_int \<bar>n\<bar> :: rat) < of_int (2 ^ 53)" using assms by (simp only: of_int_less_iff)
  also have "\<dots> < pow2 (1023 + 1)" by (simp add: pow2_def)
  finally have hi: "of_int \<bar>n\<bar> * pow2 0 < pow2 (1023 + 1)" by (simp add: pow2_def)
  have "roundBinary 53 (- 1022) 1023 (n < 0) (of_int \<bar>n\<bar> * pow2 0)
        = Fin (if n < 0 then - (of_int \<bar>n\<bar> * pow2 0) else of_int \<bar>n\<bar> * pow2 0)"
    by (rule roundBinary_exact[OF pos assms _ hi]) simp
  then show ?thesis by (simp add: toDouble_def pow2_def abs_if split: if_splits)
qed

lemma fround_of_int:
  assumes "\<bar>n\<bar> < 2 ^ 24"
  shows "fround (Fin (of_int n)) = Fin (of_int n)"
proof (cases "n = 0")
  case True
  then show ?thesis by (simp add: fround_def roundBinary_def signedZero_def)
next
  case False
  then have pos: "0 < \<bar>n\<bar>" by simp
  have "(of_int \<bar>n\<bar> :: rat) < of_int (2 ^ 24)" using assms by (simp only: of_int_less_iff)
  also have "\<dots> < pow2 (127 + 1)" by (simp add: pow2_def)
  finally have hi: "of_int \<bar>n\<bar> * pow2 0 < pow2 (127 + 1)" by (simp add: pow2_def)
  have "roundBinary 24 (- 126) 127 (n < 0) (of_int \<bar>n\<bar> * pow2 0)
        = Fin (if n < 0 then - (of_int \<bar>n\<bar> * pow2 0) else of_int \<bar>n\<bar> * pow2 0)"
    by (rule roundBinary_exact[OF pos assms _ hi]) simp
  then show ?thesis by (simp add: fround_def pow2_def abs_if split: if_splits)
qed

lemma num_add_int:
  assumes "\<bar>a + b\<bar> < 2 ^ 53"
  shows "num_add (Fin (of_int a)) (Fin (of_int b)) = Fin (of_int (a + b))"
proof -
  have s: "(of_int a + of_int b :: rat) = of_int (a + b)" by simp
  show ?thesis
    unfolding num_add_def Let_def s using toDouble_of_int[OF assms]
    by (auto simp: signedZero_def simp flip: of_int_add)
qed

lemma num_sub_int:
  assumes "\<bar>a - b\<bar> < 2 ^ 53"
  shows "num_sub (Fin (of_int a)) (Fin (of_int b)) = Fin (of_int (a - b))"
proof (cases "b = 0")
  case True
  then show ?thesis using assms toDouble_of_int[of a]
    by (auto simp: num_sub_def num_add_def signedZero_def)
next
  case False
  then have "num_neg (Fin (of_int b)) = Fin (of_int (- b))" by simp
  then show ?thesis unfolding num_sub_def using num_add_int[of a "- b"] assms by simp
qed

lemma toDouble_numeral [simp]:
  "(numeral k :: int) < 2 ^ 53 \<Longrightarrow> toDouble (numeral k) = Fin (numeral k)"
  using toDouble_of_int[of "numeral k"] by simp

lemma toDouble_neg_numeral [simp]:
  "(numeral k :: int) < 2 ^ 53 \<Longrightarrow> toDouble (- numeral k) = Fin (- numeral k)"
  using toDouble_of_int[of "- numeral k"] by simp

lemma toDouble_one [simp]: "toDouble 1 = Fin 1"
  using toDouble_of_int[of 1] by simp

lemma toDouble_zero [simp]: "toDouble 0 = Fin 0"
  using toDouble_of_int[of 0] by simp

lemma num_add_nat:
  assumes "a + b < 2 ^ 53"
  shows "num_add (ofNat a) (ofNat b) = ofNat (a + b)"
proof -
  have "int (a + b) < int (2 ^ 53)" using assms by (simp only: of_nat_less_iff)
  then have "\<bar>int a + int b\<bar> < 2 ^ 53" by simp
  from num_add_int[OF this] show ?thesis by (simp add: ofNat_def)
qed

lemma num_sub_nat:
  assumes "a < 2 ^ 53" "b < 2 ^ 53"
  shows "num_sub (ofNat a) (ofNat b) = Fin (of_int (int a - int b))"
proof -
  have "int a < int (2 ^ 53)" "int b < int (2 ^ 53)" using assms by (simp_all only: of_nat_less_iff)
  then have "\<bar>int a - int b\<bar> < 2 ^ 53" by simp
  from num_sub_int[OF this] show ?thesis by (simp add: ofNat_def)
qed


section \<open>Facts about strings and the dictionary\<close>

lemma plain_not_whitespace [simp]:
  "isWhiteSpace (CHR ''a'') = False"
  "isWhiteSpace (CHR ''b'') = False"
  "isWhiteSpace (CHR ''c'') = False"
  "isWhiteSpace (CHR ''d'') = False"
  "isWhiteSpace (CHR ''e'') = False"
  "isWhiteSpace (CHR ''f'') = False"
  "isWhiteSpace (CHR ''g'') = False"
  "isWhiteSpace (CHR ''h'') = False"
  "isWhiteSpace (CHR ''i'') = False"
  "isWhiteSpace (CHR ''j'') = False"
  "isWhiteSpace (CHR ''k'') = False"
  "isWhiteSpace (CHR ''l'') = False"
  "isWhiteSpace (CHR ''m'') = False"
  "isWhiteSpace (CHR ''n'') = False"
  "isWhiteSpace (CHR ''o'') = False"
  "isWhiteSpace (CHR ''p'') = False"
  "isWhiteSpace (CHR ''q'') = False"
  "isWhiteSpace (CHR ''r'') = False"
  "isWhiteSpace (CHR ''s'') = False"
  "isWhiteSpace (CHR ''t'') = False"
  "isWhiteSpace (CHR ''u'') = False"
  "isWhiteSpace (CHR ''v'') = False"
  "isWhiteSpace (CHR ''w'') = False"
  "isWhiteSpace (CHR ''x'') = False"
  "isWhiteSpace (CHR ''y'') = False"
  "isWhiteSpace (CHR ''z'') = False"
  "isWhiteSpace (CHR ''0'') = False"
  "isWhiteSpace (CHR ''1'') = False"
  "isWhiteSpace (CHR ''2'') = False"
  "isWhiteSpace (CHR ''3'') = False"
  "isWhiteSpace (CHR ''4'') = False"
  "isWhiteSpace (CHR ''5'') = False"
  "isWhiteSpace (CHR ''6'') = False"
  "isWhiteSpace (CHR ''7'') = False"
  "isWhiteSpace (CHR ''8'') = False"
  "isWhiteSpace (CHR ''9'') = False"
  "isWhiteSpace (CHR ''['') = False"
  "isWhiteSpace (CHR '']'') = False"
  "isWhiteSpace (CHR ''='') = False"
  "isWhiteSpace (CHR ''+'') = False"
  "isWhiteSpace (CHR ''-'') = False"
  "isWhiteSpace (CHR ''*'') = False"
  "isWhiteSpace (CHR ''/'') = False"
  "isWhiteSpace (CHR ''^'') = False"
  "isWhiteSpace (CHR ''.'') = False"
  "isWhiteSpace (CHR ''_'') = False"
  by (simp_all add: isWhiteSpace_def)

lemma space_whitespace [simp]: "isWhiteSpace (CHR '' '') = True"
  by (simp add: isWhiteSpace_def)

lemma plain_lower [simp]:
  "toLowerCaseChar (CHR ''a'') = CHR ''a''"
  "toLowerCaseChar (CHR ''b'') = CHR ''b''"
  "toLowerCaseChar (CHR ''c'') = CHR ''c''"
  "toLowerCaseChar (CHR ''d'') = CHR ''d''"
  "toLowerCaseChar (CHR ''e'') = CHR ''e''"
  "toLowerCaseChar (CHR ''f'') = CHR ''f''"
  "toLowerCaseChar (CHR ''g'') = CHR ''g''"
  "toLowerCaseChar (CHR ''h'') = CHR ''h''"
  "toLowerCaseChar (CHR ''i'') = CHR ''i''"
  "toLowerCaseChar (CHR ''j'') = CHR ''j''"
  "toLowerCaseChar (CHR ''k'') = CHR ''k''"
  "toLowerCaseChar (CHR ''l'') = CHR ''l''"
  "toLowerCaseChar (CHR ''m'') = CHR ''m''"
  "toLowerCaseChar (CHR ''n'') = CHR ''n''"
  "toLowerCaseChar (CHR ''o'') = CHR ''o''"
  "toLowerCaseChar (CHR ''p'') = CHR ''p''"
  "toLowerCaseChar (CHR ''q'') = CHR ''q''"
  "toLowerCaseChar (CHR ''r'') = CHR ''r''"
  "toLowerCaseChar (CHR ''s'') = CHR ''s''"
  "toLowerCaseChar (CHR ''t'') = CHR ''t''"
  "toLowerCaseChar (CHR ''u'') = CHR ''u''"
  "toLowerCaseChar (CHR ''v'') = CHR ''v''"
  "toLowerCaseChar (CHR ''w'') = CHR ''w''"
  "toLowerCaseChar (CHR ''x'') = CHR ''x''"
  "toLowerCaseChar (CHR ''y'') = CHR ''y''"
  "toLowerCaseChar (CHR ''z'') = CHR ''z''"
  "toLowerCaseChar (CHR ''0'') = CHR ''0''"
  "toLowerCaseChar (CHR ''1'') = CHR ''1''"
  "toLowerCaseChar (CHR ''2'') = CHR ''2''"
  "toLowerCaseChar (CHR ''3'') = CHR ''3''"
  "toLowerCaseChar (CHR ''4'') = CHR ''4''"
  "toLowerCaseChar (CHR ''5'') = CHR ''5''"
  "toLowerCaseChar (CHR ''6'') = CHR ''6''"
  "toLowerCaseChar (CHR ''7'') = CHR ''7''"
  "toLowerCaseChar (CHR ''8'') = CHR ''8''"
  "toLowerCaseChar (CHR ''9'') = CHR ''9''"
  "toLowerCaseChar (CHR ''['') = CHR ''[''"
  "toLowerCaseChar (CHR '']'') = CHR '']''"
  "toLowerCaseChar (CHR ''='') = CHR ''=''"
  "toLowerCaseChar (CHR ''+'') = CHR ''+''"
  "toLowerCaseChar (CHR ''-'') = CHR ''-''"
  "toLowerCaseChar (CHR ''*'') = CHR ''*''"
  "toLowerCaseChar (CHR ''/'') = CHR ''/''"
  "toLowerCaseChar (CHR ''^'') = CHR ''^''"
  "toLowerCaseChar (CHR ''.'') = CHR ''.''"
  "toLowerCaseChar (CHR ''_'') = CHR ''_''"
  "toLowerCaseChar (CHR '' '') = CHR '' ''"
  by (simp_all add: toLowerCaseChar_def)

lemma digit_chars [simp]:
  "isDigit (CHR ''0'')" "isDigit (CHR ''1'')" "isDigit (CHR ''2'')" "isDigit (CHR ''3'')"
  "isDigit (CHR ''4'')" "isDigit (CHR ''5'')" "isDigit (CHR ''6'')" "isDigit (CHR ''7'')"
  "isDigit (CHR ''8'')" "isDigit (CHR ''9'')"
  "\<not> isDigit (CHR ''.'')" "\<not> isDigit (CHR ''-'')" "\<not> isDigit (CHR ''+'')"
  by (simp_all add: isDigit_def)

lemmas norm_defs = normalizeMnemonic_def toLowerCase_def assign_def

lemma snd_defineInstruction [simp]:
  "snd (defineInstruction ms i tbs) = snd tbs @ [i]"
  by (simp add: defineInstruction_def Let_def)

lemma snd_pushInstruction [simp]: "snd (pushInstruction i tbs) = snd tbs @ [i]"
  by (simp add: pushInstruction_def)

lemma keys_update: "fst ` set (AList.update m b d) = insert m (fst ` set d)"
proof -
  have "set (map fst (AList.update m b d)) = insert m (set (map fst d))"
    by (simp add: update_keys insert_absorb)
  then show ?thesis by simp
qed

lemma keys_fold_update:
  "fst ` set (fold (\<lambda>mnemonic dict. AList.update mnemonic b dict) ms d) = set ms \<union> fst ` set d"
  by (induction ms arbitrary: d) (auto simp: keys_update)

lemma keysOf_defineInstruction [simp]:
  "keysOf (defineInstruction ms i tbs) = set (map normalizeMnemonic ms) \<union> keysOf tbs"
  by (simp add: keysOf_def defineInstruction_def Let_def keys_fold_update)

lemma keysOf_pushInstruction [simp]: "keysOf (pushInstruction i tbs) = keysOf tbs"
  by (simp add: keysOf_def pushInstruction_def)

lemma keysOf_empty [simp]: "keysOf ([], []) = {}"
  by (simp add: keysOf_def)

lemma map_of_fold_update:
  "map_of (fold (\<lambda>mnemonic dict. AList.update mnemonic b dict) ms d) key
     = (if key \<in> set ms then Some b else map_of d key)"
  by (induction ms arbitrary: d) (auto simp: update_conv')

lemma lookupIn_defineInstruction [simp]:
  "lookupIn (defineInstruction ms i tbs) key
     = (if key \<in> set (map normalizeMnemonic ms) then Some (length (snd tbs))
        else lookupIn tbs key)"
  by (simp add: lookupIn_def defineInstruction_def Let_def map_of_fold_update)

lemma lookupIn_pushInstruction [simp]: "lookupIn (pushInstruction i tbs) key = lookupIn tbs key"
  by (simp add: lookupIn_def pushInstruction_def)

lemma lookupIn_empty [simp]: "lookupIn ([], []) key = None"
  by (simp add: lookupIn_def)

lemma distinct_fold_update:
  "distinct (map fst (fold (\<lambda>mnemonic dict. AList.update mnemonic b dict) ms d))
     = distinct (map fst d)"
  by (induction ms arbitrary: d) (auto simp: update_keys)

lemma distinctKeys_defineInstruction [simp]:
  "distinctKeys (defineInstruction ms i tbs) = distinctKeys tbs"
  by (simp add: distinctKeys_def defineInstruction_def Let_def distinct_fold_update)

lemma distinctKeys_pushInstruction [simp]: "distinctKeys (pushInstruction i tbs) = distinctKeys tbs"
  by (simp add: distinctKeys_def pushInstruction_def)

lemma distinctKeys_empty [simp]: "distinctKeys ([], [])"
  by (simp add: distinctKeys_def)

lemmas module_defs = loadedModule_def moduleStatements_def inOrder_def
  generalPurposeRegisters_def defineThreeOperand_def defineTargetInOperand_def
  defineOtherTwo_def defineWithOther_def

lemma distinctKeys_loadedModule: "distinctKeys loadedModule"
  by (simp add: module_defs)

lemma card_keysOf_loadedModule: "card (keysOf loadedModule) = 127"
  by (simp add: module_defs norm_defs card_insert_if)

lemma length_bytecodeByKeyableMnemonic: "length bytecodeByKeyableMnemonic = 127"
proof -
  have "distinct (map fst bytecodeByKeyableMnemonic)"
    using distinctKeys_loadedModule by (simp add: distinctKeys_def bytecodeByKeyableMnemonic_def)
  then have "card (set (map fst bytecodeByKeyableMnemonic)) = length bytecodeByKeyableMnemonic"
    using distinct_card[of "map fst bytecodeByKeyableMnemonic"] by simp
  then show ?thesis
    using card_keysOf_loadedModule by (simp add: keysOf_def bytecodeByKeyableMnemonic_def)
qed

lemma not_inherited_keys:
  "''constructor'' \<notin> keysOf loadedModule" "''__proto__'' \<notin> keysOf loadedModule"
  by (simp_all add: module_defs norm_defs)

lemma map_of_not_key: "key \<notin> keysOf loadedModule \<Longrightarrow> map_of bytecodeByKeyableMnemonic key = None"
  by (simp add: keysOf_def bytecodeByKeyableMnemonic_def map_of_eq_None_iff)

lemma lookup_exit: "map_of bytecodeByKeyableMnemonic ''exit'' = Some 6"
proof -
  have "lookupIn loadedModule ''exit'' = Some 6"
    by (simp add: module_defs norm_defs)
  then show ?thesis
    by (simp only: lookupIn_def bytecodeByKeyableMnemonic_def)
qed

lemma lookup_run_t: "map_of bytecodeByKeyableMnemonic ''runt'' = Some 7"
proof -
  have "lookupIn loadedModule ''runt'' = Some 7"
    by (simp add: module_defs norm_defs)
  then show ?thesis
    by (simp only: lookupIn_def bytecodeByKeyableMnemonic_def)
qed


section \<open>Facts about the table and the loop\<close>

lemmas table_defs = instructionByBytecode_def loadedModule_def moduleStatements_def inOrder_def
  generalPurposeRegisters_def defineThreeOperand_def defineTargetInOperand_def
  defineOtherTwo_def defineWithOther_def

lemma length_instructionByBytecode: "length instructionByBytecode = 178"
  by (simp add: table_defs)

lemma instruction_6: "instructionByBytecode ! 6 = Exit"
  by (simp add: table_defs)

lemma instruction_7: "instructionByBytecode ! 7 = Run RegT"
  by (simp add: table_defs)

lemma toUint_NaN: "toUint8 NaN = NaN" "toUint32 NaN = NaN"
  by (simp_all add: toUint8_def toUint32_def integerSaturate_def num_lt_def num_gt_def)

lemma call_Thrown:
  "call instruction gsx program = Thrown e gsx' \<Longrightarrow> e = RangeError \<and> gsx' = gsx"
  by (cases instruction)
     (auto simp: Let_def getInt8_def getFloat32_def setInt8_def setFloat32_def
           split: sum.splits option.splits if_splits list.splits)

lemma fetchAndRun_Thrown:
  "fetchAndRun program gsx = Thrown e gsx' \<Longrightarrow> e \<noteq> ProgramTooLarge"
  by (auto simp: fetchAndRun_def runInstruction_def Let_def
           split: option.splits if_splits dest: call_Thrown)

lemma runLoop_Thrown:
  assumes "runLoop program gsx = Some out"
  shows "\<forall>e gsx'. out = Thrown e gsx' \<longrightarrow> e \<noteq> ProgramTooLarge"
proof (rule runLoop.raw_induct
    [where P = "\<lambda>p g out. \<forall>e gsx'. out = Thrown e gsx' \<longrightarrow> e \<noteq> ProgramTooLarge", OF _ assms])
  fix f p g out
  assume IH: "\<And>p g out. f p g = Some out \<Longrightarrow> \<forall>e gsx'. out = Thrown e gsx' \<longrightarrow> e \<noteq> ProgramTooLarge"
    and body: "(if num_lt (programCounter (registers g)) (ofNat (length p))
         then case fetchAndRun p g of Normal gsx' \<Rightarrow> f p gsx' | Thrown e gsx' \<Rightarrow> Some (Thrown e gsx')
         else Some (Normal g)) = Some out"
  show "\<forall>e gsx'. out = Thrown e gsx' \<longrightarrow> e \<noteq> ProgramTooLarge"
  proof (cases "fetchAndRun p g")
    case (Normal g1)
    with body IH show ?thesis by (auto split: if_splits)
  next
    case (Thrown e1 g1)
    with body fetchAndRun_Thrown[OF Thrown] show ?thesis by (auto split: if_splits)
  qed
qed

lemma registersReset_eq: "registersReset regs = newRegisters"
  by (simp add: registersReset_def newRegisters_def set_programCounter_def
      set_argumentStackPointer_def set_jumpStackPointer_def set_t_def set_r_def set_y_def
      toUint32_def toUint8_def toFloat32_def integerSaturate_def num_lt_def num_gt_def
      UINT8_MAX_def UINT32_MAX_def fround_def roundBinary_def signedZero_def)

lemmas gate_defs = toUint8_def toUint32_def integerSaturate_def num_lt_def num_gt_def
  UINT8_MAX_def UINT32_MAX_def set_programCounter_def set_argumentStackPointer_def
  set_jumpStackPointer_def

text \<open>One exit at the top level ends the run with the program counter at \<open>2^32 - 1\<close>.\<close>

lemma runLoop_exit_at_top:
  assumes pc: "programCounter (registers gsx) = Fin 0"
    and js: "jumpStackPointer (registers gsx) = Fin 0"
    and len: "0 < length program" "length program < MAX_PROGRAM_SIZE"
    and op: "program ! 0 = 6"
  shows "runLoop program gsx
         = Some (Normal (withRegisters (\<lambda>regs. regs\<lparr>programCounter := UINT32_MAX\<rparr>) gsx))"
proof -
  let ?g1 = "withRegisters (\<lambda>regs. regs\<lparr>programCounter := Fin 1\<rparr>) gsx"
  let ?g2 = "withRegisters (\<lambda>regs. regs\<lparr>programCounter := UINT32_MAX\<rparr>) gsx"
  have lt: "num_lt (programCounter (registers gsx)) (ofNat (length program))"
    using pc len by (simp add: num_lt_def ofNat_def)
  have inc: "withRegisters (set_programCounter (num_add (programCounter (registers gsx)) (Fin 1))) gsx = ?g1"
    using pc by (simp add: withRegisters_def gate_defs num_add_def)
  have ex: "call Exit ?g1 program = Normal ?g2"
    using js by (simp add: withRegisters_def gate_defs num_eq_def)
  have step: "fetchAndRun program gsx = Normal ?g2"
    using pc len op unfolding fetchAndRun_def Let_def inc
    by (simp add: toIndex_def runInstruction_def length_instructionByBytecode instruction_6 ex
        del: call.simps)
  have stop: "\<not> num_lt (programCounter (registers ?g2)) (ofNat (length program))"
    using len by (simp add: withRegisters_def num_lt_def ofNat_def UINT32_MAX_def
        MAX_PROGRAM_SIZE_def BYTES_PER_MB_def)
  show ?thesis
    by (subst runLoop.simps, simp only: lt if_True step outcome.case)
       (subst runLoop.simps, simp only: stop if_False)
qed

section \<open>Facts about whole numbers\<close>

lemma Fin_ofNat:
  "Fin (numeral k) = ofNat (numeral k)" "Fin 0 = ofNat 0" "Fin 1 = ofNat 1"
  by (simp_all add: ofNat_def)

lemma ofNat_eq_iff [simp]: "ofNat a = ofNat b \<longleftrightarrow> a = b"
  by (simp add: ofNat_def)

lemma ofNat_distinct [simp]:
  "ofNat a \<noteq> NaN" "ofNat a \<noteq> PInf" "ofNat a \<noteq> NInf" "ofNat a \<noteq> NZero"
  "NaN \<noteq> ofNat a"
  by (simp_all add: ofNat_def)

lemma num_lt_ofNat [simp]: "num_lt (ofNat a) (ofNat b) \<longleftrightarrow> a < b"
  by (simp add: num_lt_def ofNat_def)

lemma num_eq_ofNat [simp]: "num_eq (ofNat a) (ofNat b) \<longleftrightarrow> a = b"
  by (simp add: num_eq_def ofNat_def)

lemma num_trunc_ofNat [simp]: "num_trunc (ofNat n) = ofNat n"
  by (simp add: ofNat_def)

lemma toInteger_ofNat [simp]: "toInteger (ofNat n) = int n"
  by (simp add: ofNat_def)

lemma UINT32_MAX_ofNat: "UINT32_MAX = ofNat 4294967295"
  by (simp add: UINT32_MAX_def ofNat_def)

lemma UINT8_MAX_ofNat: "UINT8_MAX = ofNat 255"
  by (simp add: UINT8_MAX_def ofNat_def)

lemma toUint8_ofNat: "toUint8 (ofNat n) = ofNat (min 255 n)"
  by (auto simp: toUint8_def integerSaturate_def num_gt_def UINT8_MAX_ofNat Fin_ofNat min_def)

lemma toUint32_ofNat: "toUint32 (ofNat n) = ofNat (min 4294967295 n)"
  by (auto simp: toUint32_def integerSaturate_def num_gt_def UINT32_MAX_ofNat Fin_ofNat min_def)

lemma toUint8_negative: "q < 0 \<Longrightarrow> toUint8 (Fin q) = ofNat 0"
  by (simp add: toUint8_def integerSaturate_def num_lt_def ofNat_def)

lemma toUint8_pred: "a < 2 ^ 53 \<Longrightarrow> toUint8 (num_sub (ofNat a) (ofNat 1)) = ofNat (min 255 (a - 1))"
proof (cases "a = 0")
  case True
  assume "a < 2 ^ 53"
  have "num_sub (ofNat 0) (ofNat 1) = Fin (- 1)"
    using num_sub_nat[of 0 1] by simp
  then show ?thesis using True by (simp add: toUint8_negative)
next
  case False
  assume a: "a < 2 ^ 53"
  have "num_sub (ofNat a) (ofNat 1) = Fin (of_int (int a - 1))"
    using num_sub_nat[of a 1] a by simp
  also have "\<dots> = ofNat (a - 1)"
    using False by (simp add: ofNat_def of_nat_diff)
  finally show ?thesis by (simp add: toUint8_ofNat)
qed

lemma toIndex_ofNat: "n < 2 ^ 53 \<Longrightarrow> toIndex (ofNat n) = Some n"
  by (simp add: toIndex_def ofNat_def)

lemma elementIndex_ofNat: "elementIndex (ofNat j) len = (if j < len then Some j else None)"
  by (simp add: elementIndex_def ofNat_def)

lemma fround_ofNat: "n < 2 ^ 24 \<Longrightarrow> fround (ofNat n) = ofNat n"
  using fround_of_int[of "int n"] by (simp add: ofNat_def)

lemma num_add_one:
  assumes "a + 1 < 2 ^ 53"
  shows "num_add (ofNat a) (Fin 1) = ofNat (a + 1)" "num_add (Fin 1) (ofNat a) = ofNat (a + 1)"
  using num_add_nat[of a 1] num_add_nat[of 1 a] assms by (simp_all add: ofNat_def)

text \<open>What the loop does at a \<open>run t\<close>: the address written is two past the call.\<close>

lemma fetchAndRun_run_t:
  assumes pc: "programCounter (registers gsx) = ofNat a"
    and a: "a < length program" "length program < MAX_PROGRAM_SIZE"
    and op: "program ! a = 7"
    and js: "jumpStackPointer (registers gsx) = ofNat j" "j < 256"
    and len: "length (jumpStack gsx) = 256"
  shows "fetchAndRun program gsx
         = Normal (gsx\<lparr>jumpStack := (jumpStack gsx)[j := of_nat (a + 2)],
                       registers := (registers gsx)
                         \<lparr>jumpStackPointer := ofNat (min 255 (j + 1)),
                          programCounter := toUint32 (regT (registers gsx))\<rparr>\<rparr>)"
proof -
  have a53: "a < 2 ^ 53" "a + 1 < 2 ^ 53" "1 + (a + 1) < 2 ^ 53" "j + 1 < 2 ^ 53"
    using a js by (simp_all add: MAX_PROGRAM_SIZE_def BYTES_PER_MB_def)
  have a32: "min 4294967295 (a + 1) = a + 1"
    using a by (simp add: MAX_PROGRAM_SIZE_def BYTES_PER_MB_def)
  let ?gsx1 = "gsx\<lparr>registers := (registers gsx)\<lparr>programCounter := ofNat (a + 1)\<rparr>\<rparr>"
  have inc: "withRegisters (set_programCounter (num_add (programCounter (registers gsx)) (Fin 1))) gsx
             = ?gsx1"
    by (simp only: pc withRegisters_def set_programCounter_def num_add_one(1)[OF a53(2)]
        toUint32_ofNat a32)
  have u: "unat (program ! a) = 7" by (simp add: op)
  have fetch: "fetchAndRun program gsx = call (Run RegT) ?gsx1 program"
    unfolding fetchAndRun_def Let_def inc
    using a by (simp add: pc toIndex_ofNat[OF a53(1)] u runInstruction_def
        length_instructionByBytecode instruction_7 del: call.simps)
  have ret: "num_add (Fin 1) (ofNat (Suc a)) = ofNat (a + 2)"
    using num_add_one(2)[of "a + 1"] a53 by (simp add: add.commute)
  have nxt: "num_add (ofNat j) (Fin 1) = ofNat (j + 1)"
    using num_add_one(1)[of j] a53 by simp
  show ?thesis
    unfolding fetch
    using js len
    by (simp add: Let_def withRegisters_def set_programCounter_def set_jumpStackPointer_def
        ret nxt toUint8_ofNat uint32ArraySet_def elementIndex_ofNat)
qed


lemma instruction_0: "instructionByBytecode ! 0 = ByteToRegister RegT"
  by (simp add: table_defs)

lemma runLoop_step:
  assumes "num_lt (programCounter (registers gsx)) (ofNat (length program))"
    and "fetchAndRun program gsx = Normal gsx'"
  shows "runLoop program gsx = runLoop program gsx'"
  by (subst runLoop.simps) (simp add: assms)

lemma runLoop_stop:
  assumes "\<not> num_lt (programCounter (registers gsx)) (ofNat (length program))"
  shows "runLoop program gsx = Some (Normal gsx)"
  by (subst runLoop.simps) (simp add: assms)


text \<open>The turn of the loop at an opcode: the fetch, the advance and the dispatch.\<close>

lemma fetchAndRun_dispatch:
  assumes pc: "programCounter (registers gsx) = ofNat a"
    and a: "a < length program" "length program < MAX_PROGRAM_SIZE"
    and op: "unat (program ! a) < 178"
  shows "fetchAndRun program gsx
         = call (instructionByBytecode ! unat (program ! a))
             (gsx\<lparr>registers := (registers gsx)\<lparr>programCounter := ofNat (a + 1)\<rparr>\<rparr>) program"
proof -
  have a53: "a < 2 ^ 53" "a + 1 < 2 ^ 53"
    using a by (simp_all add: MAX_PROGRAM_SIZE_def BYTES_PER_MB_def)
  have a32: "min 4294967295 (a + 1) = a + 1"
    using a by (simp add: MAX_PROGRAM_SIZE_def BYTES_PER_MB_def)
  have inc: "withRegisters (set_programCounter (num_add (programCounter (registers gsx)) (Fin 1))) gsx
             = gsx\<lparr>registers := (registers gsx)\<lparr>programCounter := ofNat (a + 1)\<rparr>\<rparr>"
    by (simp only: pc withRegisters_def set_programCounter_def num_add_one(1)[OF a53(2)]
        toUint32_ofNat a32)
  show ?thesis
    unfolding fetchAndRun_def Let_def inc
    using a op by (simp add: pc toIndex_ofNat[OF a53(1)] runInstruction_def
        length_instructionByBytecode del: call.simps)
qed

lemma fetchAndRun_exit_top:
  assumes pc: "programCounter (registers gsx) = ofNat a"
    and a: "a < length program" "length program < MAX_PROGRAM_SIZE"
    and op: "program ! a = 6"
    and js: "jumpStackPointer (registers gsx) = ofNat 0"
  shows "fetchAndRun program gsx
         = Normal (gsx\<lparr>registers := (registers gsx)\<lparr>programCounter := UINT32_MAX\<rparr>\<rparr>)"
proof -
  have u: "unat (program ! a) = 6" by (simp add: op)
  show ?thesis
    using js
    by (simp add: fetchAndRun_dispatch[OF pc a] u instruction_6 withRegisters_def
        set_programCounter_def Fin_ofNat UINT32_MAX_ofNat toUint32_ofNat)
qed

lemma fetchAndRun_exit_return:
  assumes pc: "programCounter (registers gsx) = ofNat a"
    and a: "a < length program" "length program < MAX_PROGRAM_SIZE"
    and op: "program ! a = 6"
    and js: "jumpStackPointer (registers gsx) = ofNat (Suc j)" "j < 256"
    and len: "length (jumpStack gsx) = 256"
  shows "fetchAndRun program gsx
         = Normal (gsx\<lparr>registers := (registers gsx)
                     \<lparr>jumpStackPointer := ofNat j,
                      programCounter := ofNat (unat (jumpStack gsx ! j))\<rparr>\<rparr>)"
proof -
  have u: "unat (program ! a) = 6" by (simp add: op)
  have dec: "toUint8 (num_sub (ofNat (Suc j)) (Fin 1)) = ofNat j"
    using toUint8_pred[of "Suc j"] js(2) by (simp add: Fin_ofNat)
  have w: "min 4294967295 (unat (jumpStack gsx ! j)) = unat (jumpStack gsx ! j)"
    using unsigned_less[of "jumpStack gsx ! j", where 'a = nat] by simp
  show ?thesis
    using js len
    by (simp add: fetchAndRun_dispatch[OF pc a] u instruction_6 withRegisters_def Let_def
        set_programCounter_def set_jumpStackPointer_def dec uint32ArrayGet_def
        elementIndex_ofNat toUint32_ofNat w)
       (simp add: Fin_ofNat)
qed

lemma MAX_PROGRAM_SIZE_eq: "MAX_PROGRAM_SIZE = 3 * 2 ^ 20"
  by (simp add: MAX_PROGRAM_SIZE_def BYTES_PER_MB_def)

lemma newGsx_pointers:
  "programCounter (registers newGsx) = ofNat 0"
  "argumentStackPointer (registers newGsx) = ofNat 0"
  "jumpStackPointer (registers newGsx) = ofNat 0"
  "length (argumentStack newGsx) = 256" "length (jumpStack newGsx) = 256"
  by (simp_all add: newGsx_def newRegisters_def ofNat_def)




section \<open>Facts about the assembler\<close>

lemma roundBinary_ge:
  assumes a: "pow2 j \<le> a" and j: "emin \<le> j" and p: "0 < p"
  shows "roundBinary p emin emax neg a = signedInf neg
         \<or> (\<exists>v. pow2 j \<le> v \<and> roundBinary p emin emax neg a = Fin (if neg then - v else v))"
proof -
  have apos: "0 < a" using a pow2_pos[of j] by linarith
  let ?e0 = "ilog2 a"
  have "pow2 j < pow2 (?e0 + 1)" using ilog2_upper[OF apos] a by linarith
  then have je: "j \<le> ?e0" by simp
  then have e: "max ?e0 emin = ?e0" using j by simp
  let ?s = "pow2 (?e0 - int p + 1)"
  let ?n = "roundHalfEven (a / ?s)"
  have dec: "decompose p emin a = (?n, ?e0)"
    by (simp add: decompose_def Let_def e)
  have "pow2 ?e0 = pow2 (int p - 1) * ?s"
    by (simp add: pow2_add[symmetric])
  then have "pow2 (int p - 1) * ?s \<le> a" using ilog2_lower[OF apos] by simp
  then have "pow2 (int p - 1) \<le> a / ?s" by (simp add: pos_le_divide_eq)
  moreover have "pow2 (int p - 1) = of_int (2 ^ (p - 1))"
    using p by (simp add: pow2_nat nat_diff_distrib)
  ultimately have "of_int (2 ^ (p - 1)) \<le> a / ?s" by simp
  then have n: "2 ^ (p - 1) \<le> ?n" by (rule roundHalfEven_ge)
  then have npos: "0 < ?n" by (smt (verit) zero_less_power)
  have "(of_int (2 ^ (p - 1)) :: rat) \<le> of_int ?n"
    using n by (simp only: of_int_le_iff)
  then have "of_int (2 ^ (p - 1)) * ?s \<le> of_int ?n * ?s"
    by (rule mult_right_mono) (simp add: less_imp_le)
  then have "pow2 (int p - 1) * ?s \<le> of_int ?n * ?s"
    using \<open>pow2 (int p - 1) = of_int (2 ^ (p - 1))\<close> by simp
  then have "pow2 ?e0 \<le> of_int ?n * ?s"
    using \<open>pow2 ?e0 = pow2 (int p - 1) * ?s\<close> by simp
  moreover have "pow2 j \<le> pow2 ?e0" using je by simp
  ultimately have v: "pow2 j \<le> of_int ?n * ?s" by linarith
  have "a \<noteq> 0" using apos by simp
  then show ?thesis
    using npos v unfolding roundBinary_def dec by (auto simp: Let_def)
qed

lemma roundDouble_nat:
  assumes "n < 2 ^ 53"
  shows "roundBinary 53 (- 1022) 1023 neg (of_nat n)
         = (if n = 0 then signedZero neg else Fin (if neg then - of_nat n else of_nat n))"
proof (cases "n = 0")
  case True
  then show ?thesis by (simp add: roundBinary_def)
next
  case False
  then have pos: "0 < int n" by simp
  have lt: "int n < 2 ^ 53" using assms by (metis of_nat_less_numeral_power_cancel_iff)
  have "(of_int (int n) :: rat) < of_int (2 ^ 53)" using lt by (simp only: of_int_less_iff)
  also have "\<dots> < pow2 (1023 + 1)" by (simp add: pow2_def)
  finally have hi: "of_int (int n) * pow2 0 < pow2 (1023 + 1)" by (simp add: pow2_def)
  have "roundBinary 53 (- 1022) 1023 neg (of_int (int n) * pow2 0)
        = Fin (if neg then - (of_int (int n) * pow2 0) else of_int (int n) * pow2 0)"
    by (rule roundBinary_exact[OF pos lt _ hi]) simp
  then show ?thesis using False by (simp add: pow2_def)
qed

lemma roundDouble_big:
  assumes "2 ^ 53 \<le> n"
  shows "roundBinary 53 (- 1022) 1023 neg (of_nat n) = signedInf neg
         \<or> (\<exists>v. 2 ^ 53 \<le> v \<and> roundBinary 53 (- 1022) 1023 neg (of_nat n)
                    = Fin (if neg then - v else v))"
proof -
  have "(of_nat (2 ^ 53) :: rat) \<le> of_nat n" using assms by (simp only: of_nat_le_iff)
  then have "pow2 53 \<le> (of_nat n :: rat)" by (simp add: pow2_def)
  from roundBinary_ge[OF this, of "- 1022" 53 1023 neg]
  show ?thesis by (simp add: pow2_def)
qed

text \<open>Whether the double of a signed whole number passes the byte test of the assembler.\<close>

lemma byte_test_whole:
  fixes n :: nat and neg :: bool
  defines "x \<equiv> roundBinary 53 (- 1022) 1023 neg (of_nat n)"
  shows "(num_ge x INT8_MIN \<and> num_le x INT8_MAX \<and> num_eq x x)
         \<longleftrightarrow> - 128 \<le> (if neg then - 1 else 1) * int n \<and> (if neg then - 1 else 1) * int n \<le> 127"
proof (cases "n < 2 ^ 53")
  case True
  have "x = (if n = 0 then signedZero neg else Fin (if neg then - of_nat n else of_nat n))"
    unfolding x_def by (rule roundDouble_nat[OF True])
  then show ?thesis
    by (auto simp: num_ge_def num_le_def num_eq_def num_lt_def INT8_MIN_def INT8_MAX_def
        signedZero_def)
next
  case False
  then have big: "2 ^ 53 \<le> n" by simp
  then have n128: "128 < int n" by simp
  from roundDouble_big[OF big, of neg]
  have "x = signedInf neg \<or> (\<exists>v. 2 ^ 53 \<le> v \<and> x = Fin (if neg then - v else v))"
    by (simp add: x_def)
  then have "\<not> (num_ge x INT8_MIN \<and> num_le x INT8_MAX)"
    by (cases neg)
       (auto simp: num_ge_def num_le_def num_lt_def INT8_MIN_def INT8_MAX_def signedInf_def)
  then show ?thesis using n128 by auto
qed

lemma signedDecimal_shape:
  assumes "isSignedDecimal c"
  obtains neg body where "stripSign c = (neg, body)"
    and "takeWhile isDigit body \<noteq> []"
    and "dropWhile isDigit body = []
         \<or> (\<exists>fs. dropWhile isDigit body = CHR ''.'' # fs \<and> fs \<noteq> [] \<and> list_all isDigit fs)"
    and "set body \<subseteq> set c"
proof (cases c)
  case Nil
  with assms show ?thesis by (simp add: isSignedDecimal_def)
next
  case (Cons d ds)
  show ?thesis
  proof (cases "d = CHR ''-''")
    case True
    with Cons assms have "stripSign c = (True, ds)" "takeWhile isDigit ds \<noteq> []"
      "dropWhile isDigit ds = []
         \<or> (\<exists>fs. dropWhile isDigit ds = CHR ''.'' # fs \<and> fs \<noteq> [] \<and> list_all isDigit fs)"
      "set ds \<subseteq> set c"
      by (auto simp: isSignedDecimal_def stripSign_def Let_def split: list.splits)
    then show ?thesis by (rule that)
  next
    case False
    with Cons assms have w: "takeWhile isDigit c \<noteq> []"
      and r: "dropWhile isDigit c = []
         \<or> (\<exists>fs. dropWhile isDigit c = CHR ''.'' # fs \<and> fs \<noteq> [] \<and> list_all isDigit fs)"
      by (auto simp: isSignedDecimal_def Let_def split: list.splits)
    from w Cons have "isDigit d" by (auto split: if_splits)
    then have "d \<noteq> CHR ''+''" by auto
    with False Cons have "stripSign c = (False, c)" by (simp add: stripSign_def)
    then show ?thesis using w r by (rule that) simp
  qed
qed

lemma matchConstantAssignment_new:
  assumes "isSignedDecimal c"
  shows "matchConstantAssignment (''new'' @ letter register @ ''='' @ c) = Some (register, c)"
  using assms by (cases register) (simp_all add: matchConstantAssignment_def)

lemma digitsValue_Nil: "digitsValue [] = 0"
  by (simp add: digitsValue_def)

lemma parse_whole:
  assumes "isSignedDecimal c" and "CHR ''.'' \<notin> set c"
  shows "parseFloat c = parseInt c
    \<and> (\<exists>neg n. parseFloat c = roundBinary 53 (- 1022) 1023 neg (of_nat n)
          \<and> signedDigitsValue c = (if neg then - 1 else 1) * int n)"
proof -
  from assms(1) obtain neg body where sh: "stripSign c = (neg, body)"
    "takeWhile isDigit body \<noteq> []"
    "dropWhile isDigit body = []
         \<or> (\<exists>fs. dropWhile isDigit body = CHR ''.'' # fs \<and> fs \<noteq> [] \<and> list_all isDigit fs)"
    "set body \<subseteq> set c"
    by (rule signedDecimal_shape)
  have "set (dropWhile isDigit body) \<subseteq> set c"
    using sh(4) set_dropWhileD by fastforce
  with assms(2) sh(3) have rest: "dropWhile isDigit body = []" by auto
  have pf: "parseFloat c
            = roundBinary 53 (- 1022) 1023 neg (of_nat (digitsValue (takeWhile isDigit body)))"
    by (simp add: parseFloat_def sh(1,2) rest Let_def digitsValue_Nil)
  have pint: "parseInt c
            = roundBinary 53 (- 1022) 1023 neg (of_nat (digitsValue (takeWhile isDigit body)))"
    by (simp add: parseInt_def sh(1,2) Let_def)
  have sv: "signedDigitsValue c
            = (if neg then - 1 else 1) * int (digitsValue (takeWhile isDigit body))"
    by (simp add: signedDigitsValue_def sh(1))
  show ?thesis using pf pint sv by auto
qed

lemma toInteger_sint: "toInteger (Fin (of_int (sint b))) = sint b"
  by (simp del: of_int_sint)

lemma word_sint: "word_of_int (sint b) = (b :: byte)"
  by simp

lemma getFloatBytes_bytes:
  "map (\<lambda>v. word_of_int (toInteger v)) (getFloatBytes x) = bytesOfBits (float32Bits x)"
  by (simp only: getFloatBytes_def bytesOfBits_def list.map toInteger_sint word_sint)

lemma float32Bits_128: "float32Bits (Fin 128) = 1124073472"
proof -
  have "ilog2 128 = 7" by (rule ilog2_unique) (simp_all add: pow2_def)
  then have "decompose 24 (- 126) 128 = (8388608, 7)"
    by (simp add: decompose_def pow2_def roundHalfEven_def)
  then show ?thesis by (simp add: float32Bits_def)
qed

lemma foo_not_key: "''foo'' \<notin> keysOf loadedModule"
  by (simp add: module_defs norm_defs)

text \<open>What the assembler reports, for every program: one message for each line that is not
  blank, is not found by the lookup and is not a constant assignment; and no bytes
  whenever there is a message.\<close>

lemma translateLine_errors:
  "fst (translateLine localeString (i, line) (errs, bytes))
     = errs @ (if normalizeMnemonic line \<noteq> []
                  \<and> lookupMnemonic bytecodeByKeyableMnemonic (normalizeMnemonic line) = Undefined
                  \<and> tryToGetBytecodeForConstantAssignment (normalizeMnemonic line) = None
               then [''Unknown instruction ('' @ line @ '') on line '' @ localeString (i + 1) @ ''.'']
               else [])"
  by (simp add: translateLine_def Let_def split: option.splits)

lemma fold_translateLine_errors:
  "fst (fold (translateLine localeString) ls acc)
     = fst acc @ map (\<lambda>(i, line).
           ''Unknown instruction ('' @ line @ '') on line '' @ localeString (i + 1) @ ''.'')
         (filter (\<lambda>(i, line). normalizeMnemonic line \<noteq> []
                  \<and> lookupMnemonic bytecodeByKeyableMnemonic (normalizeMnemonic line) = Undefined
                  \<and> tryToGetBytecodeForConstantAssignment (normalizeMnemonic line) = None) ls)"
proof (induction ls arbitrary: acc)
  case Nil
  then show ?case by simp
next
  case (Cons l ls)
  obtain i line where l: "l = (i, line)" by (cases l)
  obtain errs bytes where acc: "acc = (errs, bytes)" by (cases acc)
  show ?case
    unfolding l acc using translateLine_errors[of localeString i line errs bytes]
    by (simp add: Cons.IH)
qed

lemma translateToBytecode_errors:
  "snd (translateToBytecode localeString program)
     = map (\<lambda>(i, line).
           ''Unknown instruction ('' @ line @ '') on line '' @ localeString (i + 1) @ ''.'')
         (filter (\<lambda>(i, line). normalizeMnemonic line \<noteq> []
                  \<and> lookupMnemonic bytecodeByKeyableMnemonic (normalizeMnemonic line) = Undefined
                  \<and> tryToGetBytecodeForConstantAssignment (normalizeMnemonic line) = None)
            (enumerate 0 (splitLines program)))"
proof -
  have "snd (translateToBytecode localeString program)
        = fst (fold (translateLine localeString) (enumerate 0 (splitLines program)) ([], []))"
    by (simp add: translateToBytecode_def Let_def split: prod.splits)
  then show ?thesis
    by (simp only: fold_translateLine_errors fst_conv append_Nil)
qed

lemma translateToBytecode_no_bytes:
  "snd (translateToBytecode localeString program) \<noteq> []
     \<Longrightarrow> fst (translateToBytecode localeString program) = []"
  by (simp add: translateToBytecode_def Let_def split: prod.splits)


section \<open>The claims\<close>

text \<open>
  C10. The integer gates do not turn \<open>NaN\<close> into an integer: \<open>toUint8\<close> and \<open>toUint32\<close>
  return \<open>NaN\<close> on \<open>NaN\<close>, so the setters of PC, AS and JS store \<open>NaN\<close>; running
  \<open>run t\<close> (opcode 7) while T is \<open>NaN\<close> leaves the program counter \<open>NaN\<close>.
\<close>

theorem C10_gates_pass_NaN:
  assumes "regT (registers gsx) = NaN"
  shows "toUint8 NaN = NaN \<and> toUint32 NaN = NaN
    \<and> programCounter (set_programCounter NaN regs) = NaN
    \<and> argumentStackPointer (set_argumentStackPointer NaN regs) = NaN
    \<and> jumpStackPointer (set_jumpStackPointer NaN regs) = NaN
    \<and> (\<exists>gsx'. runInstruction 7 gsx programBytecode = Normal gsx'
          \<and> programCounter (registers gsx') = NaN)"
  using assms
  by (simp add: toUint_NaN set_programCounter_def set_argumentStackPointer_def
      set_jumpStackPointer_def runInstruction_def length_instructionByBytecode instruction_7
      withRegisters_def Let_def)

theorem C10_gates_pass_NaN_witness:
  "regT (registers (withRegisters (\<lambda>regs. regs\<lparr>regT := NaN\<rparr>) newGsx)) = NaN
   \<and> (\<exists>gsx'. runInstruction 7 (withRegisters (\<lambda>regs. regs\<lparr>regT := NaN\<rparr>) newGsx) [7] = Normal gsx'
          \<and> programCounter (registers gsx') = NaN)"
  using C10_gates_pass_NaN[of "withRegisters (\<lambda>regs. regs\<lparr>regT := NaN\<rparr>) newGsx" newRegisters "[7]"]
  by (simp add: withRegisters_def)

text \<open>
  C8. After \<open>reset\<close> the six registers are 0 and each of the \<open>3 * 2^20\<close> bytes of RAM is 0;
  the argument stack and the jump stack keep their contents.
\<close>

theorem C8_reset:
  assumes "length (ram gsx) = 3 * 2 ^ 20"
  shows "registers (reset gsx)
           = \<lparr>programCounter = Fin 0, argumentStackPointer = Fin 0, jumpStackPointer = Fin 0,
              regT = Fin 0, regR = Fin 0, regY = Fin 0\<rparr>
    \<and> ram (reset gsx) = replicate (3 * 2 ^ 20) 0
    \<and> argumentStack (reset gsx) = argumentStack gsx
    \<and> jumpStack (reset gsx) = jumpStack gsx"
  using assms by (simp add: reset_def registersReset_eq newRegisters_def)

theorem C8_reset_witness:
  "length (ram usedGsx) = 3 * 2 ^ 20
   \<and> registers (reset usedGsx) = newRegisters
   \<and> ram (reset usedGsx) = replicate (3 * 2 ^ 20) 0
   \<and> ram usedGsx \<noteq> replicate (3 * 2 ^ 20) 0
   \<and> argumentStack (reset usedGsx) = (replicate 256 (Fin 0))[0 := Fin 30]
   \<and> jumpStack (reset usedGsx) = (replicate 256 0)[0 := 100, 1 := 24]"
proof -
  have len: "length (ram usedGsx) = 3 * 2 ^ 20"
    by (simp add: usedGsx_def newGsx_def BYTES_PER_MB_def)
  have ne: "ram usedGsx \<noteq> replicate (3 * 2 ^ 20) 0"
  proof
    assume "ram usedGsx = replicate (3 * 2 ^ 20) 0"
    then have "ram usedGsx ! 2 = replicate (3 * 2 ^ 20) 0 ! 2" by simp
    then show False by (simp add: usedGsx_def newGsx_def BYTES_PER_MB_def)
  qed
  show ?thesis
    using C8_reset[OF len] len ne by (simp add: newRegisters_def) (simp add: usedGsx_def newGsx_def)
qed

text \<open>
  C5. \<open>runProgram\<close> throws the program-too-large error exactly when the bytecode has
  \<open>3 * 2^20\<close> bytes or more; it then throws before the loop, with the machine as it was.
  A program of \<open>3 * 2^20 - 1\<close> bytes goes to the loop.
\<close>

theorem C5_program_too_large:
  "((\<exists>gsx'. runProgram program gsx = Some (Thrown ProgramTooLarge gsx'))
      \<longleftrightarrow> 3 * 2 ^ 20 \<le> length program)
   \<and> (3 * 2 ^ 20 \<le> length program
        \<longrightarrow> runProgram program gsx = Some (Thrown ProgramTooLarge gsx))
   \<and> (length program = 3 * 2 ^ 20 - 1 \<longrightarrow> runProgram program gsx = runLoop program gsx)"
proof -
  have max: "MAX_PROGRAM_SIZE = 3 * 2 ^ 20"
    by (simp add: MAX_PROGRAM_SIZE_def BYTES_PER_MB_def)
  have "\<not> (\<exists>gsx'. runProgram program gsx = Some (Thrown ProgramTooLarge gsx'))"
    if "length program < 3 * 2 ^ 20"
    using that runLoop_Thrown[of program gsx] by (auto simp: runProgram_def max)
  then show ?thesis
    by (auto simp: runProgram_def max)
qed

theorem C5_program_too_large_witness:
  "3 * 2 ^ 20 \<le> length (replicate (3 * 2 ^ 20) (0 :: byte))
   \<and> runProgram (replicate (3 * 2 ^ 20) 0) usedGsx = Some (Thrown ProgramTooLarge usedGsx)
   \<and> length (replicate (3 * 2 ^ 20 - 1) (6 :: byte)) = 3 * 2 ^ 20 - 1
   \<and> runProgram (replicate (3 * 2 ^ 20 - 1) 6) newGsx
       = Some (Normal (withRegisters (\<lambda>regs. regs\<lparr>programCounter := UINT32_MAX\<rparr>) newGsx))"
proof -
  have run: "runLoop (replicate (3 * 2 ^ 20 - 1) 6) newGsx
       = Some (Normal (withRegisters (\<lambda>regs. regs\<lparr>programCounter := UINT32_MAX\<rparr>) newGsx))"
    by (rule runLoop_exit_at_top)
       (simp_all add: newGsx_def newRegisters_def MAX_PROGRAM_SIZE_def BYTES_PER_MB_def)
  show ?thesis
    using C5_program_too_large[of "replicate (3 * 2 ^ 20) 0" usedGsx]
      C5_program_too_large[of "replicate (3 * 2 ^ 20 - 1) 6" newGsx] run
    by simp
qed




text \<open>
  C1. The tables after the module is loaded: the code builds 178 instructions and 127
  keys, not 256 and 250; an opcode from 178 on has no instruction, and calling it throws.
\<close>

theorem C1_tables_after_loading:
  "length instructionByBytecode = 178
   \<and> length bytecodeByKeyableMnemonic = 127
   \<and> runInstruction 178 gsx programBytecode = Thrown TypeError gsx
   \<and> runInstruction 255 gsx programBytecode = Thrown TypeError gsx"
  by (simp add: length_instructionByBytecode length_bytecodeByKeyableMnemonic runInstruction_def)

text \<open>
  C4. In the program \<open>new t = 4; run t; exit; exit\<close> (bytes 0 4 7 6 6) the call is at
  address 2. The address it leaves in the jump stack is 4, two past the call, not 3: the
  loop has already advanced the program counter past the opcode when the instruction adds 1.
\<close>

theorem C4_return_address_two_past_call:
  "runProgram [0, 4, 7, 6, 6] newGsx
     = Some (Normal (newGsx\<lparr>jumpStack := (jumpStack newGsx)[0 := 4],
               registers := (registers newGsx)
                 \<lparr>regT := Fin 4, programCounter := ofNat 4294967295\<rparr>\<rparr>))
   \<and> map_of bytecodeByKeyableMnemonic ''runt'' = Some 7"
proof -
  let ?p = "[0, 4, 7, 6, 6] :: byte list"
  define g1 where "g1 = newGsx\<lparr>registers := (registers newGsx)
                 \<lparr>regT := Fin 4, programCounter := ofNat 2\<rparr>\<rparr>"
  define g2 where "g2 = newGsx\<lparr>jumpStack := (jumpStack newGsx)[0 := 4],
       registers := (registers newGsx)
                 \<lparr>regT := Fin 4, jumpStackPointer := ofNat 1, programCounter := ofNat 4\<rparr>\<rparr>"
  define g3 where "g3 = newGsx\<lparr>jumpStack := (jumpStack newGsx)[0 := 4],
       registers := (registers newGsx)
                 \<lparr>regT := Fin 4, programCounter := ofNat 4\<rparr>\<rparr>"
  define g4 where "g4 = newGsx\<lparr>jumpStack := (jumpStack newGsx)[0 := 4],
       registers := (registers newGsx)
                 \<lparr>regT := Fin 4, programCounter := ofNat 4294967295\<rparr>\<rparr>"
  have small: "length ?p < MAX_PROGRAM_SIZE" by (simp add: MAX_PROGRAM_SIZE_eq)
  have f4: "fround (Fin 4) = Fin 4" using fround_ofNat[of 4] by (simp add: ofNat_def)
  have two: "num_add (ofNat (Suc 0)) (Fin 1) = ofNat 2" using num_add_one(1)[of 1] by simp
  have u0: "unat (?p ! 0) = 0" by simp
  have s0: "fetchAndRun ?p newGsx = Normal g1"
    using fetchAndRun_dispatch[of newGsx 0 ?p]
    by (simp add: newGsx_pointers MAX_PROGRAM_SIZE_eq instruction_0 getInt8_def
        toIndex_ofNat withRegisters_def set_t_def toFloat32_def f4 set_programCounter_def
        two toUint32_ofNat g1_def)
  have s1: "fetchAndRun ?p g1 = Normal g2"
    using fetchAndRun_run_t[of g1 2 ?p 0] small
    by (simp add: g1_def g2_def newGsx_pointers Fin_ofNat toUint32_ofNat)
  have s2: "fetchAndRun ?p g2 = Normal g3"
    using fetchAndRun_exit_return[of g2 4 ?p 0] small
    by (simp add: g2_def g3_def newGsx_pointers)
  have s3: "fetchAndRun ?p g3 = Normal g4"
    using fetchAndRun_exit_top[of g3 4 ?p] small
    by (simp add: g3_def g4_def newGsx_pointers UINT32_MAX_ofNat)
  have "runLoop ?p newGsx = runLoop ?p g1"
    by (rule runLoop_step[OF _ s0]) (simp add: newGsx_pointers)
  also have "\<dots> = runLoop ?p g2"
    by (rule runLoop_step[OF _ s1]) (simp add: g1_def)
  also have "\<dots> = runLoop ?p g3"
    by (rule runLoop_step[OF _ s2]) (simp add: g2_def)
  also have "\<dots> = runLoop ?p g4"
    by (rule runLoop_step[OF _ s3]) (simp add: g3_def)
  also have "\<dots> = Some (Normal g4)"
    by (rule runLoop_stop) (simp add: g4_def)
  finally show ?thesis
    by (simp add: runProgram_def MAX_PROGRAM_SIZE_eq g4_def lookup_run_t)
qed

text \<open>
  C9. With the argument stack pointer at \<open>k\<close> (\<open>0 .. 255\<close>): a push writes the register
  (as a single) at \<open>argumentStack[k]\<close> and then sets the pointer to \<open>min 255 (k + 1)\<close>;
  a pop sets the pointer to \<open>k - 1\<close>, stopping at 0, and then reads \<open>argumentStack\<close> there
  into the register. Neither throws: at 255 a push leaves 255, at 0 a pop leaves 0.
\<close>

theorem C9_push_pop:
  assumes "argumentStackPointer (registers gsx) = ofNat k" and "k < 256"
    and "length (argumentStack gsx) = 256"
  shows "call (Push register) gsx programBytecode
           = Normal (gsx\<lparr>argumentStack :=
                         (argumentStack gsx)[k := fround (registersGet (registers gsx) (GP register))],
                       registers := (registers gsx)
                         \<lparr>argumentStackPointer := ofNat (min 255 (k + 1))\<rparr>\<rparr>)
    \<and> call (Pop register) gsx programBytecode
           = Normal (gsx\<lparr>registers :=
                       registersSet (GP register) (argumentStack gsx ! (k - 1))
                         ((registers gsx)\<lparr>argumentStackPointer := ofNat (k - 1)\<rparr>)\<rparr>)"
proof -
  have k53: "k + 1 < 2 ^ 53" "k < 2 ^ 53" using assms(2) by simp_all
  have inc: "num_add (ofNat k) (Fin 1) = ofNat (k + 1)" by (rule num_add_one(1)[OF k53(1)])
  have dec: "toUint8 (num_sub (ofNat k) (Fin 1)) = ofNat (k - 1)"
    using toUint8_pred[OF k53(2)] assms(2) by (simp add: Fin_ofNat)
  show ?thesis
    using assms
    by (simp add: Let_def withRegisters_def set_argumentStackPointer_def float32ArraySet_def
        float32ArrayGet_def elementIndex_ofNat inc dec toUint8_ofNat)
qed

theorem C9_push_pop_witness:
  "argumentStackPointer (registers (withRegisters (\<lambda>regs. regs\<lparr>argumentStackPointer := ofNat 255\<rparr>) usedGsx))
     = ofNat 255
   \<and> (255 :: nat) < 256 \<and> length (argumentStack usedGsx) = 256
   \<and> (\<exists>gsx'. call (Push RegY)
          (withRegisters (\<lambda>regs. regs\<lparr>argumentStackPointer := ofNat 255\<rparr>) usedGsx) [] = Normal gsx'
        \<and> argumentStack gsx' ! 255 = Fin 30
        \<and> argumentStackPointer (registers gsx') = ofNat 255)
   \<and> (\<exists>gsx'. call (Pop RegT)
          (withRegisters (\<lambda>regs. regs\<lparr>argumentStackPointer := ofNat 0\<rparr>) usedGsx) [] = Normal gsx'
        \<and> regT (registers gsx') = Fin 30
        \<and> argumentStackPointer (registers gsx') = ofNat 0)"
proof -
  have f30: "fround (Fin 30) = Fin 30" using fround_ofNat[of 30] by (simp add: ofNat_def)
  show ?thesis
    using C9_push_pop[of "withRegisters (\<lambda>regs. regs\<lparr>argumentStackPointer := ofNat 255\<rparr>) usedGsx"
        255 RegY "[]"]
      C9_push_pop[of "withRegisters (\<lambda>regs. regs\<lparr>argumentStackPointer := ofNat 0\<rparr>) usedGsx"
        0 RegT "[]"]
    by (simp add: withRegisters_def usedGsx_def f30 set_t_def toFloat32_def)
qed

text \<open>
  C3 as stated fails at \<open>new t = 127.0\<close>: the text has a dot, yet the byte-constant
  opcode is emitted, since \<open>parseFloat\<close> and \<open>parseInt\<close> of \<open>127.0\<close> are both 127.
\<close>

theorem C3_counterexample:
  "normalizeMnemonic ''new t = 127.0'' = ''newt=127.0''
   \<and> CHR ''.'' \<in> set ''127.0''
   \<and> tryToGetBytecodeForConstantAssignment ''newt=127.0'' = Some [Fin 0, Fin 127]"
proof -
  have r: "roundBinary 53 (- 1022) 1023 False 127 = Fin 127"
    using roundDouble_nat[of 127 False] by simp
  have norm: "normalizeMnemonic ''new t = 127.0'' = ''newt=127.0''"
    by (simp add: norm_defs)
  have dec: "isSignedDecimal ''127.0''"
    by (simp add: isSignedDecimal_def)
  have m: "matchConstantAssignment ''newt=127.0'' = Some (RegT, ''127.0'')"
    using matchConstantAssignment_new[OF dec, of RegT] by simp
  have d: "digitsValue ''127'' = 127" "digitsValue ''0'' = 0"
    by (simp_all add: digitsValue_def)
  have pf: "parseFloat ''127.0'' = Fin 127"
    by (simp add: parseFloat_def stripSign_def d r)
  have pint: "parseInt ''127.0'' = Fin 127"
    by (simp add: parseInt_def stripSign_def d r)
  have "tryToGetBytecodeForConstantAssignment ''newt=127.0'' = Some [Fin 0, Fin 127]"
    unfolding tryToGetBytecodeForConstantAssignment_def m
    by (simp add: pf pint num_ge_def num_le_def num_eq_def num_lt_def INT8_MIN_def INT8_MAX_def
        ofNat_def)
  with norm show ?thesis by simp
qed

text \<open>
  C3, amended. For a line whose normalized form is \<open>new<t|r|y>=<signed decimal>\<close>, the
  assembler emits the byte-constant opcode (0, 1 or 2) followed by the constant exactly when
  the constant's value lies in \<open>[-128, 127]\<close> and equals the value of its whole part (the
  digits before any dot, as \<open>parseInt\<close> reads them); otherwise the float-constant opcode
  (3, 4 or 5) followed by the four big-endian bytes of the single nearest to the value.
  For a constant without a dot the byte form is emitted exactly when the integer lies in
  \<open>[-128, 127]\<close>. A constant with a dot and a whole value, such as \<open>127.0\<close>, takes the
  byte form.
\<close>

theorem C3_constant_assignment_amended:
  assumes "isSignedDecimal c"
  shows "tryToGetBytecodeForConstantAssignment (''new'' @ letter register @ ''='' @ c)
         = Some (if num_ge (parseFloat c) (Fin (- 128)) \<and> num_le (parseFloat c) (Fin 127)
                    \<and> num_eq (parseFloat c) (parseInt c)
                 then [ofNat (ByteToRegisterBytecode register), parseFloat c]
                 else ofNat (FloatToRegisterBytecode register) # getFloatBytes (parseFloat c))
    \<and> ByteToRegisterBytecode register < 3
    \<and> FloatToRegisterBytecode register = 3 + ByteToRegisterBytecode register
    \<and> map (\<lambda>v. word_of_int (toInteger v)) (getFloatBytes (parseFloat c))
          = bytesOfBits (float32Bits (parseFloat c))
    \<and> (CHR ''.'' \<notin> set c \<longrightarrow>
          ((num_ge (parseFloat c) (Fin (- 128)) \<and> num_le (parseFloat c) (Fin 127)
              \<and> num_eq (parseFloat c) (parseInt c))
           \<longleftrightarrow> - 128 \<le> signedDigitsValue c \<and> signedDigitsValue c \<le> 127))"
proof (intro conjI impI)
  show "tryToGetBytecodeForConstantAssignment (''new'' @ letter register @ ''='' @ c)
         = Some (if num_ge (parseFloat c) (Fin (- 128)) \<and> num_le (parseFloat c) (Fin 127)
                    \<and> num_eq (parseFloat c) (parseInt c)
                 then [ofNat (ByteToRegisterBytecode register), parseFloat c]
                 else ofNat (FloatToRegisterBytecode register) # getFloatBytes (parseFloat c))"
    unfolding tryToGetBytecodeForConstantAssignment_def
      matchConstantAssignment_new[OF assms]
    by (simp add: Let_def INT8_MIN_def INT8_MAX_def)
  show "ByteToRegisterBytecode register < 3" by (cases register) simp_all
  show "FloatToRegisterBytecode register = 3 + ByteToRegisterBytecode register"
    by (cases register) simp_all
  show "map (\<lambda>v. word_of_int (toInteger v)) (getFloatBytes (parseFloat c))
          = bytesOfBits (float32Bits (parseFloat c))"
    by (rule getFloatBytes_bytes)
next
  assume nodot: "CHR ''.'' \<notin> set c"
  from parse_whole[OF assms nodot] obtain neg n where
    eq: "parseFloat c = parseInt c"
    and pf: "parseFloat c = roundBinary 53 (- 1022) 1023 neg (of_nat n)"
    and sv: "signedDigitsValue c = (if neg then - 1 else 1) * int n"
    by blast
  show "(num_ge (parseFloat c) (Fin (- 128)) \<and> num_le (parseFloat c) (Fin 127)
              \<and> num_eq (parseFloat c) (parseInt c))
           \<longleftrightarrow> - 128 \<le> signedDigitsValue c \<and> signedDigitsValue c \<le> 127"
    using byte_test_whole[of neg n]
    unfolding eq[symmetric] pf sv INT8_MIN_def INT8_MAX_def .
qed

theorem C3_constant_assignment_amended_witness:
  "isSignedDecimal ''127.0''
   \<and> tryToGetBytecodeForConstantAssignment ''newt=127.0'' = Some [Fin 0, Fin 127]
   \<and> isSignedDecimal ''-3'' \<and> CHR ''.'' \<notin> set ''-3'' \<and> signedDigitsValue ''-3'' = - 3
   \<and> tryToGetBytecodeForConstantAssignment ''newr=-3'' = Some [Fin 1, Fin (- 3)]
   \<and> isSignedDecimal ''128'' \<and> CHR ''.'' \<notin> set ''128'' \<and> signedDigitsValue ''128'' = 128
   \<and> tryToGetBytecodeForConstantAssignment ''newy=128''
       = Some [Fin 5, Fin 67, Fin 0, Fin 0, Fin 0]"
proof -
  have r: "roundBinary 53 (- 1022) 1023 False 127 = Fin 127"
    "roundBinary 53 (- 1022) 1023 True 3 = Fin (- 3)"
    "roundBinary 53 (- 1022) 1023 False 128 = Fin 128"
    using roundDouble_nat[of 127 False] roundDouble_nat[of 3 True] roundDouble_nat[of 128 False]
    by simp_all
  have dec: "isSignedDecimal ''127.0''" "isSignedDecimal ''-3''" "isSignedDecimal ''128''"
    by (simp_all add: isSignedDecimal_def)
  have d: "digitsValue ''127'' = 127" "digitsValue ''0'' = 0" "digitsValue ''3'' = 3"
    "digitsValue ''128'' = 128"
    by (simp_all add: digitsValue_def)
  have pf: "parseFloat ''127.0'' = Fin 127" "parseFloat ''-3'' = Fin (- 3)"
    "parseFloat ''128'' = Fin 128"
    by (simp_all add: parseFloat_def stripSign_def d r digitsValue_Nil)
  have pint: "parseInt ''127.0'' = Fin 127"
    by (simp add: parseInt_def stripSign_def d r)
  have sv: "signedDigitsValue ''-3'' = - 3" "signedDigitsValue ''128'' = 128"
    by (simp_all add: signedDigitsValue_def stripSign_def d)
  have fb: "getFloatBytes (Fin 128) = [Fin 67, Fin 0, Fin 0, Fin 0]"
    by (simp add: getFloatBytes_def float32Bits_128 bytesOfBits_def)
  show ?thesis
    using C3_constant_assignment_amended[OF dec(1), of RegT]
      C3_constant_assignment_amended[OF dec(2), of RegR]
      C3_constant_assignment_amended[OF dec(3), of RegY]
    by (simp add: dec pf pint sv fb num_ge_def num_le_def num_eq_def num_lt_def ofNat_def)
qed

text \<open>
  C6. The line \<open>constructor\<close> is neither a key of the dictionary nor a constant
  assignment, yet no error is recorded for it: the lookup finds the property that every
  object inherits, so the line counts as recognized and one byte (0) is emitted. An
  ordinary unknown line such as \<open>foo\<close> is reported.
\<close>

theorem C6_inherited_key_not_reported:
  "map_of bytecodeByKeyableMnemonic ''constructor'' = None
   \<and> tryToGetBytecodeForConstantAssignment ''constructor'' = None
   \<and> translateToBytecode localeString ''constructor'' = ([0], [])
   \<and> translateToBytecode localeString ''foo''
       = ([], [''Unknown instruction (foo) on line '' @ localeString 1 @ ''.''])"
proof -
  have k: "map_of bytecodeByKeyableMnemonic ''constructor'' = None"
    by (rule map_of_not_key) (rule not_inherited_keys)
  have kf: "map_of bytecodeByKeyableMnemonic ''foo'' = None"
    by (rule map_of_not_key) (rule foo_not_key)
  have n: "normalizeMnemonic ''constructor'' = ''constructor''"
    "normalizeMnemonic ''foo'' = ''foo''"
    by (simp_all add: norm_defs)
  have t: "tryToGetBytecodeForConstantAssignment ''constructor'' = None"
    "tryToGetBytecodeForConstantAssignment ''foo'' = None"
    by (simp_all add: tryToGetBytecodeForConstantAssignment_def matchConstantAssignment_def)
  have s: "splitLines ''constructor'' = [''constructor'']" "splitLines ''foo'' = [''foo'']"
    by simp_all
  have l1: "translateLine localeString (0, ''constructor'') ([], []) = ([], [NaN])"
    by (simp add: translateLine_def n lookupMnemonic_def k)
  have l2: "translateLine localeString (0, ''foo'') ([], [])
            = ([''Unknown instruction (foo) on line '' @ localeString 1 @ ''.''], [])"
    by (simp add: translateLine_def n lookupMnemonic_def kf t)
  show ?thesis
    by (simp add: k t translateToBytecode_def s l1 l2)
qed

end
